theory Spec2Isabelle
  imports Main "HOL-Library.Log_Nat"
begin

section \<open>JavaScript numbers\<close>

text \<open>
  Every numeric value of the calculators is a JavaScript \<^verbatim>\<open>number\<close>, an IEEE-754 binary64
  value. A \<open>number\<close> is one of the two infinities, not-a-number, or a finite value, which
  is a rational. The two zeros are identified: the components never divide by a zero and
  never inspect its sign. Each arithmetic operation computes the exact rational result and
  rounds it once to the nearest binary64 value, ties to the even significand.
\<close>

datatype number = NaN | PInf | NInf | Fin rat

text \<open>\<open>expo x\<close> is the binary exponent of a nonzero \<open>x\<close>: \<open>2 powi expo x \<le> \<bar>x\<bar> < 2 powi (expo x + 1)\<close>.\<close>

definition expo :: "rat \<Rightarrow> int" where
  "expo x = (case quotient_of \<bar>x\<bar> of (p, q) \<Rightarrow>
     let d = bitlen p - bitlen q in if 2 powi d \<le> \<bar>x\<bar> then d else d - 1)"

text \<open>Round to the nearest integer, ties to even.\<close>

definition rne :: "rat \<Rightarrow> int" where
  "rne m = (let f = \<lfloor>m\<rfloor>; d = m - of_int f in
     if d < 1 / 2 then f else if 1 / 2 < d then f + 1 else if even f then f else f + 1)"

text \<open>
  The spacing of the binary64 values around \<open>x\<close>: 53 significant bits, and the fixed
  spacing \<open>2 powi (- 1074)\<close> of the subnormal range below \<open>2 powi (- 1022)\<close>.
\<close>

definition quantum :: "rat \<Rightarrow> rat" where
  "quantum x = 2 powi (max (expo x) (- 1022) - 52)"

definition nearest :: "rat \<Rightarrow> rat" where
  "nearest x = of_int (rne (x / quantum x)) * quantum x"

text \<open>A rounded magnitude of \<open>2 powi 1024\<close> or more overflows to an infinity.\<close>

definition round64 :: "rat \<Rightarrow> number" where
  "round64 x = (if x = 0 then Fin 0
     else if 2 powi 1024 \<le> \<bar>nearest x\<bar> then (if 0 < x then PInf else NInf)
     else Fin (nearest x))"

text \<open>The operators \<^verbatim>\<open>*\<close>, \<^verbatim>\<open>+\<close>, \<^verbatim>\<open>-\<close> and \<^verbatim>\<open>/\<close> on numbers.\<close>

definition fmul :: "number \<Rightarrow> number \<Rightarrow> number" where
  "fmul a b = (case a of
       NaN \<Rightarrow> NaN
     | Fin x \<Rightarrow> (case b of
           NaN \<Rightarrow> NaN
         | Fin y \<Rightarrow> round64 (x * y)
         | PInf \<Rightarrow> if x = 0 then NaN else if 0 < x then PInf else NInf
         | NInf \<Rightarrow> if x = 0 then NaN else if 0 < x then NInf else PInf)
     | PInf \<Rightarrow> (case b of
           NaN \<Rightarrow> NaN
         | Fin y \<Rightarrow> if y = 0 then NaN else if 0 < y then PInf else NInf
         | PInf \<Rightarrow> PInf
         | NInf \<Rightarrow> NInf)
     | NInf \<Rightarrow> (case b of
           NaN \<Rightarrow> NaN
         | Fin y \<Rightarrow> if y = 0 then NaN else if 0 < y then NInf else PInf
         | PInf \<Rightarrow> NInf
         | NInf \<Rightarrow> PInf))"

definition fadd :: "number \<Rightarrow> number \<Rightarrow> number" where
  "fadd a b = (case a of
       NaN \<Rightarrow> NaN
     | Fin x \<Rightarrow> (case b of NaN \<Rightarrow> NaN | Fin y \<Rightarrow> round64 (x + y) | PInf \<Rightarrow> PInf | NInf \<Rightarrow> NInf)
     | PInf \<Rightarrow> (case b of NaN \<Rightarrow> NaN | NInf \<Rightarrow> NaN | _ \<Rightarrow> PInf)
     | NInf \<Rightarrow> (case b of NaN \<Rightarrow> NaN | PInf \<Rightarrow> NaN | _ \<Rightarrow> NInf))"

definition fneg :: "number \<Rightarrow> number" where
  "fneg a = (case a of NaN \<Rightarrow> NaN | PInf \<Rightarrow> NInf | NInf \<Rightarrow> PInf | Fin x \<Rightarrow> Fin (- x))"

definition fsub :: "number \<Rightarrow> number \<Rightarrow> number" where
  "fsub a b = fadd a (fneg b)"

text \<open>A finite zero divisor stands for \<open>+0\<close>.\<close>

definition fdiv :: "number \<Rightarrow> number \<Rightarrow> number" where
  "fdiv a b = (case a of
       NaN \<Rightarrow> NaN
     | Fin x \<Rightarrow> (case b of
           NaN \<Rightarrow> NaN
         | Fin y \<Rightarrow> if y = 0 then (if x = 0 then NaN else if 0 < x then PInf else NInf)
                    else round64 (x / y)
         | _ \<Rightarrow> Fin 0)
     | PInf \<Rightarrow> (case b of Fin y \<Rightarrow> if 0 \<le> y then PInf else NInf | _ \<Rightarrow> NaN)
     | NInf \<Rightarrow> (case b of Fin y \<Rightarrow> if 0 \<le> y then NInf else PInf | _ \<Rightarrow> NaN))"

text \<open>The comparisons \<^verbatim>\<open><\<close> and \<^verbatim>\<open><=\<close>: false whenever an operand is \<open>NaN\<close>.\<close>

definition flt :: "number \<Rightarrow> number \<Rightarrow> bool" where
  "flt a b = (case a of
       NaN \<Rightarrow> False
     | NInf \<Rightarrow> (case b of NaN \<Rightarrow> False | NInf \<Rightarrow> False | _ \<Rightarrow> True)
     | Fin x \<Rightarrow> (case b of Fin y \<Rightarrow> x < y | PInf \<Rightarrow> True | _ \<Rightarrow> False)
     | PInf \<Rightarrow> False)"

definition fle :: "number \<Rightarrow> number \<Rightarrow> bool" where
  "fle a b = (case a of
       NaN \<Rightarrow> False
     | NInf \<Rightarrow> (case b of NaN \<Rightarrow> False | _ \<Rightarrow> True)
     | Fin x \<Rightarrow> (case b of Fin y \<Rightarrow> x \<le> y | PInf \<Rightarrow> True | _ \<Rightarrow> False)
     | PInf \<Rightarrow> (case b of PInf \<Rightarrow> True | _ \<Rightarrow> False))"

text \<open>\<open>a > b\<close> is \<open>b < a\<close>; \<open>a >= b\<close> is \<open>b <= a\<close>.\<close>

definition fgt :: "number \<Rightarrow> number \<Rightarrow> bool" where
  "fgt a b = flt b a"

definition fge :: "number \<Rightarrow> number \<Rightarrow> bool" where
  "fge a b = fle b a"

text \<open>Strict equality \<^verbatim>\<open>===\<close> on numbers: \<open>NaN\<close> equals nothing, itself included.\<close>

definition strictEq :: "number \<Rightarrow> number \<Rightarrow> bool" where
  "strictEq a b = (a \<noteq> NaN \<and> a = b)"

text \<open>\<^verbatim>\<open>isFinite\<close>: neither \<open>NaN\<close> nor an infinity.\<close>

definition isFinite :: "number \<Rightarrow> bool" where
  "isFinite a = (case a of Fin _ \<Rightarrow> True | _ \<Rightarrow> False)"

section \<open>parseFloat and parseInt\<close>

text \<open>
  The texts are strings of one-byte characters; the white space skipped at the front is
  the ASCII part of the language's white space and line terminators. The value of a
  decimal text is its exact value, rounded once, also beyond 20 significant digits.
\<close>

definition isWhiteSpace :: "char \<Rightarrow> bool" where
  "isWhiteSpace c = (of_char c \<in> {9, 10, 11, 12, 13, 32 :: nat})"

definition isDigit :: "char \<Rightarrow> bool" where
  "isDigit c = (48 \<le> (of_char c :: nat) \<and> (of_char c :: nat) \<le> 57)"

definition digitsValue :: "string \<Rightarrow> int" where
  "digitsValue ds = foldl (\<lambda>acc c. 10 * acc + (of_char c - 48)) 0 ds"

text \<open>An optional sign: whether it is a minus, and the rest of the text.\<close>

definition takeSign :: "string \<Rightarrow> bool \<times> string" where
  "takeSign s = (case s of
       [] \<Rightarrow> (False, [])
     | c # r \<Rightarrow> if c = CHR ''-'' then (True, r) else if c = CHR ''+'' then (False, r) else (False, s))"

definition signed :: "bool \<Rightarrow> rat \<Rightarrow> rat" where
  "signed neg x = (if neg then - x else x)"

text \<open>
  \<^verbatim>\<open>parseInt(s, 10)\<close>: leading white space, an optional sign, then the longest run of
  decimal digits; \<open>NaN\<close> when that run is empty.
\<close>

definition parseInt :: "string \<Rightarrow> number" where
  "parseInt s = (case takeSign (dropWhile isWhiteSpace s) of (neg, r) \<Rightarrow>
     let ds = takeWhile isDigit r
     in if ds = [] then NaN else round64 (signed neg (of_int (digitsValue ds))))"

text \<open>The exponent part of a decimal literal; 0 when the text has none.\<close>

definition exponentPart :: "string \<Rightarrow> int" where
  "exponentPart s = (case s of
       [] \<Rightarrow> 0
     | c # r \<Rightarrow>
         if c = CHR ''e'' \<or> c = CHR ''E'' then
           (case takeSign r of (neg, r') \<Rightarrow>
              let ds = takeWhile isDigit r'
              in if ds = [] then 0
                 else if neg then - digitsValue ds else digitsValue ds)
         else 0)"

text \<open>
  \<^verbatim>\<open>parseFloat(s)\<close>: leading white space, an optional sign, then the longest prefix that is
  \<^verbatim>\<open>Infinity\<close> or a decimal literal (digits, an optional fraction, an optional exponent);
  \<open>NaN\<close> when there is no such prefix.
\<close>

definition parseFloat :: "string \<Rightarrow> number" where
  "parseFloat s = (case takeSign (dropWhile isWhiteSpace s) of (neg, r) \<Rightarrow>
     if take 8 r = ''Infinity'' then (if neg then NInf else PInf)
     else
       let ip = takeWhile isDigit r;
           r1 = dropWhile isDigit r;
           hasDot = (r1 \<noteq> [] \<and> hd r1 = CHR ''.'');
           fp = (if hasDot then takeWhile isDigit (tl r1) else []);
           r2 = (if hasDot then dropWhile isDigit (tl r1) else r1)
       in if ip = [] \<and> fp = [] then NaN
          else round64 (signed neg
                 (of_int (digitsValue (ip @ fp)) * 10 powi (exponentPart r2 - int (length fp)))))"

section \<open>The calculator components\<close>

text \<open>
  The repository has three copies of one calculator component: the gold calculator, the
  silver calculator with the purities 925 and 999, and the silver calculator whose purity
  is fixed to 999. Their code is the same text up to the names \<^verbatim>\<open>goldPrice\<close> /
  \<^verbatim>\<open>silverPrice\<close> and \<^verbatim>\<open>goldWeight\<close> / \<^verbatim>\<open>silverWeight\<close> and the purity constants, so the
  three are one model with the component as a parameter; the fields carry the gold
  component's names.
\<close>

datatype component = Gold | Silver | SilverFixed999

datatype purity = P916 | P750 | P925 | P999

text \<open>A numeric literal of the source denotes the binary64 value nearest to it.\<close>

definition literal :: "rat \<Rightarrow> number" where
  "literal x = round64 x"

text \<open>\<^verbatim>\<open>CalculationParams\<close> and \<^verbatim>\<open>SilverCalculationParams\<close>: a saved calculation.\<close>

record CalculationParams =
  id' :: string
  goldPrice :: string
  goldWeight :: string
  purity :: purity
  minPercent :: string
  maxPercent :: string
  selectedPercent :: "number option"

record ResultDetail =
  percent :: number
  wastageValue :: number
  purityValue :: number
  total :: number
  wastageInGrams :: number

text \<open>The \<^verbatim>\<open>errors\<close> object: an optional message for each of the four text fields.\<close>

record FieldErrors =
  err_goldPrice :: "string option"
  err_goldWeight :: "string option"
  err_minPercent :: "string option"
  err_maxPercent :: "string option"

text \<open>
  The state variables of a component. The five inputs are prefixed with \<open>st_\<close> to keep
  them apart from the fields of a saved calculation.
\<close>

record calculator =
  st_goldPrice :: string
  st_goldWeight :: string
  st_purity :: purity
  st_minPercent :: string
  st_maxPercent :: string
  errors :: FieldErrors
  results :: "ResultDetail list"
  selectedResult :: "ResultDetail option"
  savedCalculations :: "CalculationParams list"
  loadRequest :: "CalculationParams option"

definition noErrors :: FieldErrors where
  "noErrors = \<lparr>err_goldPrice = None, err_goldWeight = None, err_minPercent = None,
     err_maxPercent = None\<rparr>"

text \<open>
  \<^verbatim>\<open>validate\<close>: the five checks in the source's order, each assigning its field of
  \<^verbatim>\<open>newErrors\<close>; the last one overwrites an earlier message on \<^verbatim>\<open>maxPercent\<close>. The
  result is the error object that \<^verbatim>\<open>setErrors\<close> stores.
\<close>

definition newErrors :: "calculator \<Rightarrow> FieldErrors" where
  "newErrors st =
    (let e1 = (if st_goldPrice st = [] \<or> fle (parseFloat (st_goldPrice st)) (Fin 0)
               then noErrors\<lparr>err_goldPrice := Some ''Invalid price''\<rparr> else noErrors);
         e2 = (if st_goldWeight st = [] \<or> fle (parseFloat (st_goldWeight st)) (Fin 0)
               then e1\<lparr>err_goldWeight := Some ''Invalid weight''\<rparr> else e1);
         e3 = (if st_minPercent st = [] \<or> flt (parseInt (st_minPercent st)) (Fin 0)
               then e2\<lparr>err_minPercent := Some ''Invalid %''\<rparr> else e2);
         e4 = (if st_maxPercent st = [] \<or> flt (parseInt (st_maxPercent st)) (Fin 0)
               then e3\<lparr>err_maxPercent := Some ''Invalid %''\<rparr> else e3)
     in if fgt (parseInt (st_minPercent st)) (parseInt (st_maxPercent st))
        then e4\<lparr>err_maxPercent := Some ''Max must be >= min''\<rparr> else e4)"

text \<open>\<^verbatim>\<open>validate()\<close> stores the errors and returns whether the object has no key.\<close>

definition validate :: "calculator \<Rightarrow> calculator \<times> bool" where
  "validate st = (st\<lparr>errors := newErrors st\<rparr>, newErrors st = noErrors)"

text \<open>
  \<^verbatim>\<open>purityDecimal\<close> as \<^verbatim>\<open>calculateAndSelect\<close> computes it, and as
  \<^verbatim>\<open>calculateTotalFromParams\<close> computes it.
\<close>

fun sweepPurityDecimal :: "component \<Rightarrow> purity \<Rightarrow> number" where
  "sweepPurityDecimal Gold p = (if p = P916 then literal (92 / 100) else literal (75 / 100))"
| "sweepPurityDecimal Silver p = (if p = P925 then literal (925 / 1000) else literal (999 / 1000))"
| "sweepPurityDecimal SilverFixed999 p = literal 1"

fun replayPurityDecimal :: "component \<Rightarrow> purity \<Rightarrow> number" where
  "replayPurityDecimal Gold p = (if p = P916 then literal (92 / 100) else literal (75 / 100))"
| "replayPurityDecimal Silver p = (if p = P925 then literal (925 / 1000) else literal (999 / 1000))"
| "replayPurityDecimal SilverFixed999 p =
     (if p = P925 then literal (925 / 1000) else literal (999 / 1000))"

text \<open>The purity a component works with: a state variable, or the constant \<^verbatim>\<open>'999'\<close>.\<close>

fun currentPurity :: "component \<Rightarrow> calculator \<Rightarrow> purity" where
  "currentPurity SilverFixed999 st = P999"
| "currentPurity c st = st_purity st"

text \<open>\<^verbatim>\<open>calculateTotalFromParams\<close>: the total of a saved calculation.\<close>

definition calculateTotalFromParams :: "component \<Rightarrow> CalculationParams \<Rightarrow> number" where
  "calculateTotalFromParams c params =
    (let price = parseFloat (goldPrice params);
         weight = parseFloat (goldWeight params);
         purityDecimal = replayPurityDecimal c (purity params);
         percent' = (case selectedPercent params of Some p \<Rightarrow> p
                     | None \<Rightarrow> parseInt (minPercent params));
         wastagePercentDecimal = fdiv percent' (Fin 100);
         purityValue' = fmul (fmul weight purityDecimal) price;
         wastageValue' = fmul (fmul weight wastagePercentDecimal) price
     in fadd purityValue' wastageValue')"

text \<open>The body of the loop of \<^verbatim>\<open>calculateAndSelect\<close>: the result pushed for the counter \<open>i\<close>.\<close>

definition resultFor :: "number \<Rightarrow> number \<Rightarrow> number \<Rightarrow> number \<Rightarrow> ResultDetail" where
  "resultFor weight purityDecimal price i =
    (let wastagePercentDecimal = fdiv i (Fin 100);
         purityValue' = fmul (fmul weight purityDecimal) price;
         wastageValue' = fmul (fmul weight wastagePercentDecimal) price;
         total' = fadd purityValue' wastageValue';
         rateOfAlloyedGold = fmul price purityDecimal;
         wastageInGrams' = (if fgt rateOfAlloyedGold (Fin 0)
                            then fdiv wastageValue' rateOfAlloyedGold else Fin 0)
     in \<lparr>percent = i, wastageValue = wastageValue', purityValue = purityValue',
         total = total', wastageInGrams = wastageInGrams'\<rparr>)"

text \<open>
  An array holds at most \<open>2 ^ 32 - 1\<close> elements: \<^verbatim>\<open>push\<close> on an array of that length throws
  a \<^verbatim>\<open>RangeError\<close>. Memory is not bounded otherwise.
\<close>

datatype exception = RangeError

definition maxArrayLength :: nat where
  "maxArrayLength = 4294967295"

text \<open>
  The loop \<^verbatim>\<open>for (let i = min; i <= max; i++)\<close> with its \<^verbatim>\<open>push\<close>. The counter is a number,
  and \<^verbatim>\<open>i++\<close> adds 1 in binary64, so the counter need not advance; the loop then ends when
  the array is full.
\<close>

function sweep ::
  "number \<Rightarrow> number \<Rightarrow> number \<Rightarrow> number \<Rightarrow> number \<Rightarrow> ResultDetail list
     \<Rightarrow> exception + ResultDetail list"
where
  "sweep weight purityDecimal price i max' newResults =
    (if fle i max'
     then if length newResults < maxArrayLength
          then sweep weight purityDecimal price (fadd i (Fin 1)) max'
                 (newResults @ [resultFor weight purityDecimal price i])
          else Inl RangeError
     else Inr newResults)"
  by pat_completeness auto
termination
  by (relation "measure (\<lambda>(weight, purityDecimal, price, i, max', newResults).
        maxArrayLength - length newResults)") auto

declare sweep.simps [simp del]

text \<open>\<^verbatim>\<open>newResults[0] || null\<close>.\<close>

definition firstResult :: "ResultDetail list \<Rightarrow> ResultDetail option" where
  "firstResult rs = (case rs of [] \<Rightarrow> None | r # _ \<Rightarrow> Some r)"

text \<open>The selection that \<^verbatim>\<open>calculateAndSelect\<close> makes among the new results.\<close>

definition select :: "number option \<Rightarrow> ResultDetail list \<Rightarrow> ResultDetail option" where
  "select selectedPercent' newResults =
    (case selectedPercent' of
       Some sp \<Rightarrow>
         (case find (\<lambda>r. strictEq (percent r) sp) newResults of
            Some resultToSelect \<Rightarrow> Some resultToSelect
          | None \<Rightarrow> firstResult newResults)
     | None \<Rightarrow> firstResult newResults)"

text \<open>
  \<^verbatim>\<open>calculateAndSelect(selectedPercent?)\<close>: the state it leaves, or the exception that its
  loop throws.
\<close>

definition calculateAndSelect ::
  "component \<Rightarrow> number option \<Rightarrow> calculator \<Rightarrow> exception + calculator" where
  "calculateAndSelect c selectedPercent' st0 =
    (case validate st0 of (st, ok) \<Rightarrow>
       if \<not> ok then Inr (st\<lparr>results := [], selectedResult := None\<rparr>)
       else
         let price = parseFloat (st_goldPrice st);
             weight = parseFloat (st_goldWeight st);
             purityDecimal = sweepPurityDecimal c (currentPurity c st);
             min' = parseInt (st_minPercent st);
             max' = parseInt (st_maxPercent st)
         in (case sweep weight purityDecimal price min' max' [] of
               Inl e \<Rightarrow> Inl e
             | Inr newResults \<Rightarrow>
                 Inr (st\<lparr>results := newResults,
                         selectedResult := select selectedPercent' newResults\<rparr>)))"

text \<open>
  Modelled from the spec: the hook \<^verbatim>\<open>useLocalStorage\<close>, whose source file
  (\<^verbatim>\<open>hooks/useLocalStorage\<close>) is not among the sources. It holds the list of saved
  calculations as a state variable, written back to the key-value store on every change;
  its setter, given a function, replaces the list by the function applied to the current
  list.
\<close>

definition setSavedCalculations ::
  "(CalculationParams list \<Rightarrow> CalculationParams list) \<Rightarrow> calculator \<Rightarrow> calculator" where
  "setSavedCalculations f st = st\<lparr>savedCalculations := f (savedCalculations st)\<rparr>"

text \<open>\<^verbatim>\<open>handleSave\<close>; \<open>now\<close> is the text of \<^verbatim>\<open>Date.now()\<close>.\<close>

definition handleSave :: "component \<Rightarrow> string \<Rightarrow> calculator \<Rightarrow> calculator" where
  "handleSave c now st0 =
    (case validate st0 of (st, ok) \<Rightarrow>
       if \<not> ok then st
       else
         let newSave = \<lparr>id' = now, goldPrice = st_goldPrice st, goldWeight = st_goldWeight st,
                          purity = currentPurity c st, minPercent = st_minPercent st,
                          maxPercent = st_maxPercent st,
                          selectedPercent = map_option percent (selectedResult st)\<rparr>
         in setSavedCalculations (\<lambda>prev. newSave # take 9 prev) st)"

definition deleteCalculation :: "string \<Rightarrow> calculator \<Rightarrow> calculator" where
  "deleteCalculation i st = setSavedCalculations (\<lambda>prev. filter (\<lambda>c. id' c \<noteq> i) prev) st"

text \<open>\<^verbatim>\<open>loadCalculation\<close>; the component with the fixed purity does not set the purity.\<close>

definition loadCalculation :: "component \<Rightarrow> CalculationParams \<Rightarrow> calculator \<Rightarrow> calculator" where
  "loadCalculation c params st =
    (let st1 = st\<lparr>st_goldPrice := goldPrice params, st_goldWeight := goldWeight params\<rparr>;
         st2 = (if c = SilverFixed999 then st1 else st1\<lparr>st_purity := purity params\<rparr>)
     in st2\<lparr>st_minPercent := minPercent params, st_maxPercent := maxPercent params,
            loadRequest := Some params\<rparr>)"

text \<open>
  The effect on \<^verbatim>\<open>loadRequest\<close>: \<^verbatim>\<open>calculateAndSelect(loadRequest.selectedPercent)\<close> on the
  loaded inputs, then the request is cleared. The other effect of the components with two
  purities, which puts the default range into the two percent fields when the purity
  changes, acts on the fields only after this run and is left out.
\<close>

definition replay ::
  "component \<Rightarrow> CalculationParams \<Rightarrow> calculator \<Rightarrow> exception + calculator" where
  "replay c params st =
    (case calculateAndSelect c (selectedPercent params) (loadCalculation c params st) of
       Inl e \<Rightarrow> Inl e
     | Inr st' \<Rightarrow> Inr (st'\<lparr>loadRequest := None\<rparr>))"

text \<open>
  The profit margin that the results panel shows for a selected result \<open>r\<close>:
  \<^verbatim>\<open>selectedResult.total - results[0].total\<close>, when there is more than one result.
\<close>

definition profit :: "ResultDetail list \<Rightarrow> ResultDetail \<Rightarrow> number option" where
  "profit rs r = (case rs of
       minResult # _ # _ \<Rightarrow> Some (fsub (total r) (total minResult))
     | _ \<Rightarrow> None)"

section \<open>Example inputs\<close>

text \<open>The gold calculator with price 7200, weight 10, purity 916 and the range 8 to 14.\<close>

definition gold_example :: calculator where
  "gold_example = \<lparr>st_goldPrice = ''7200'', st_goldWeight = ''10'', st_purity = P916,
     st_minPercent = ''8'', st_maxPercent = ''14'', errors = noErrors, results = [],
     selectedResult = None, savedCalculations = [], loadRequest = None\<rparr>"

text \<open>
  The same with the range from 0 to \<open>2 ^ 32 - 1\<close>, and with both bounds of the range set
  to \<open>2 ^ 53\<close>.
\<close>

definition long_range_example :: calculator where
  "long_range_example = gold_example\<lparr>st_minPercent := ''0'',
     st_maxPercent := ''4294967295''\<rparr>"

definition saturated_example :: calculator where
  "saturated_example = gold_example\<lparr>st_minPercent := ''9007199254740992'',
     st_maxPercent := ''9007199254740992''\<rparr>"

text \<open>A saved calculation, and the gold example holding ten of them.\<close>

definition savedQuote :: "string \<Rightarrow> CalculationParams" where
  "savedQuote i = \<lparr>id' = i, goldPrice = ''7200'', goldWeight = ''10'', purity = P916,
     minPercent = ''8'', maxPercent = ''14'', selectedPercent = None\<rparr>"

definition full_store_example :: calculator where
  "full_store_example = gold_example\<lparr>savedCalculations :=
     map savedQuote [''10'', ''9'', ''8'', ''7'', ''6'', ''5'', ''4'', ''3'', ''2'', ''1'']\<rparr>"

text \<open>
  The silver calculator with the fixed purity as it starts, and a calculation saved from it
  with price 85, weight 50, the range 8 to 15 and the percent 8 selected.
\<close>

definition silver_initial :: calculator where
  "silver_initial = \<lparr>st_goldPrice = [], st_goldWeight = [], st_purity = P999,
     st_minPercent = ''8'', st_maxPercent = ''15'', errors = noErrors, results = [],
     selectedResult = None, savedCalculations = [], loadRequest = None\<rparr>"

definition fixed999_quote :: CalculationParams where
  "fixed999_quote = \<lparr>id' = ''1700000000000'', goldPrice = ''85'', goldWeight = ''50'',
     purity = P999, minPercent = ''8'', maxPercent = ''15'', selectedPercent = Some (Fin 8)\<rparr>"

text \<open>
  The gold example with the price \<^verbatim>\<open>1e308\<close> and the range 8 to 9, and the gold example with
  the price \<^verbatim>\<open>5e-324\<close>, the weight 1 and the range 8 to 9.
\<close>

text \<open>\<^verbatim>\<open>Number.MIN_VALUE\<close>, the least positive number, written \<^verbatim>\<open>5e-324\<close>.\<close>

definition MIN_VALUE :: rat where
  "MIN_VALUE = 1 / 2 ^ 1074"

definition overflow_example :: calculator where
  "overflow_example = gold_example\<lparr>st_goldPrice := ''1e308'', st_maxPercent := ''9''\<rparr>"

definition underflow_example :: calculator where
  "underflow_example = gold_example\<lparr>st_goldPrice := ''5e-324'', st_goldWeight := ''1'',
     st_maxPercent := ''9''\<rparr>"

section \<open>Rounding to binary64\<close>

lemma p2_diff: "(2::rat) powi (a - b) = 2 powi a / 2 powi b"
  by (simp add: power_int_diff)

lemma p2_add: "(2::rat) powi (a + b) = 2 powi a * 2 powi b"
  by (simp add: power_int_add)

lemma p2_less_iff: "(2::rat) powi a < 2 powi b \<longleftrightarrow> a < b"
proof
  assume l: "(2::rat) powi a < 2 powi b"
  show "a < b"
  proof (rule ccontr)
    assume "\<not> a < b"
    then have "b \<le> a" by simp
    then have "(2::rat) powi b \<le> 2 powi a" by (rule power_int_increasing) simp
    with l show False by simp
  qed
next
  assume "a < b"
  then show "(2::rat) powi a < 2 powi b" by (rule power_int_strict_increasing) simp
qed

lemma p2_le_iff: "(2::rat) powi a \<le> 2 powi b \<longleftrightarrow> a \<le> b"
  using p2_less_iff[of b a] by (auto simp: not_less[symmetric])

lemma bitlen_powi:
  assumes "0 < p"
  shows "(2::rat) powi (bitlen p - 1) \<le> of_int p" "of_int p < (2::rat) powi (bitlen p)"
proof -
  from bitlen_bounds[OF assms] have a: "2 ^ nat (bitlen p - 1) \<le> p" and b: "p < 2 ^ nat (bitlen p)"
    by auto
  have ge1: "1 \<le> bitlen p" using assms by (auto simp: bitlen_alt_def)
  have "(2::rat) powi (bitlen p - 1) = 2 ^ nat (bitlen p - 1)"
    using ge1 by (simp add: power_int_def)
  also have "\<dots> = of_int (2 ^ nat (bitlen p - 1))" by simp
  also have "\<dots> \<le> of_int p" using a by (simp only: of_int_le_iff)
  finally show "(2::rat) powi (bitlen p - 1) \<le> of_int p" .
  have "(of_int p :: rat) < of_int (2 ^ nat (bitlen p))" using b by (simp only: of_int_less_iff)
  also have "\<dots> = 2 powi (bitlen p)" using ge1 by (simp add: power_int_def)
  finally show "of_int p < (2::rat) powi (bitlen p)" .
qed

lemma expo_bounds:
  assumes "x \<noteq> 0"
  shows "2 powi (expo x) \<le> \<bar>x\<bar>" "\<bar>x\<bar> < 2 powi (expo x + 1)"
proof -
  obtain p q where pq: "quotient_of \<bar>x\<bar> = (p, q)" by (cases "quotient_of \<bar>x\<bar>")
  have q: "0 < q" using pq by (rule quotient_of_denom_pos)
  have x: "\<bar>x\<bar> = of_int p / of_int q" using pq by (rule quotient_of_div)
  have p: "0 < p"
  proof (rule ccontr)
    assume "\<not> 0 < p"
    then have "of_int p / (of_int q :: rat) \<le> 0" using q by (simp add: divide_le_0_iff)
    with x assms show False by simp
  qed
  define d where "d = bitlen p - bitlen q"
  have up: "\<bar>x\<bar> < 2 powi (d + 1)"
  proof -
    have "of_int p / (of_int q :: rat) < 2 powi (bitlen p) / 2 powi (bitlen q - 1)"
      using bitlen_powi[OF p] bitlen_powi[OF q] p q
      by (intro frac_less) auto
    also have "\<dots> = 2 powi (bitlen p - (bitlen q - 1))"
      by (simp only: p2_diff)
    also have "bitlen p - (bitlen q - 1) = d + 1"
      by (simp add: d_def)
    finally show ?thesis using x by simp
  qed
  have lo: "2 powi (d - 1) \<le> \<bar>x\<bar>"
  proof -
    have "(2::rat) powi (bitlen p - 1) / 2 powi (bitlen q) \<le> of_int p / of_int q"
      using bitlen_powi[OF p] bitlen_powi[OF q] p q
      by (intro frac_le) auto
    moreover have "(2::rat) powi (bitlen p - 1) / 2 powi (bitlen q) = 2 powi (bitlen p - 1 - bitlen q)"
      by (simp only: p2_diff)
    moreover have "bitlen p - 1 - bitlen q = d - 1"
      by (simp add: d_def)
    ultimately show ?thesis using x by simp
  qed
  have e: "expo x = (if 2 powi d \<le> \<bar>x\<bar> then d else d - 1)"
    by (simp add: expo_def pq d_def Let_def)
  show "2 powi (expo x) \<le> \<bar>x\<bar>" using lo by (simp add: e)
  show "\<bar>x\<bar> < 2 powi (expo x + 1)" using up by (auto simp add: e not_le)
qed

lemma expo_unique:
  assumes "2 powi e \<le> \<bar>x\<bar>" "\<bar>x\<bar> < 2 powi (e + 1)"
  shows "expo x = e"
proof -
  have "0 < (2::rat) powi e" by simp
  with assms(1) have "0 < \<bar>x\<bar>" by linarith
  then have nz: "x \<noteq> 0" by simp
  note b = expo_bounds[OF nz]
  have "(2::rat) powi e < 2 powi (expo x + 1)" using assms(1) b(2) by simp
  then have 1: "e < expo x + 1" by (simp only: p2_less_iff)
  have "(2::rat) powi (expo x) < 2 powi (e + 1)" using assms(2) b(1) by simp
  then have 2: "expo x < e + 1" by (simp only: p2_less_iff)
  from 1 2 show ?thesis by simp
qed


lemma rne_cases: "rne m = \<lfloor>m\<rfloor> \<or> rne m = \<lfloor>m\<rfloor> + 1"
  by (simp add: rne_def Let_def)

lemma rne_of_int: "rne (of_int k) = k"
  by (simp add: rne_def)

lemma rne_mono:
  assumes "m \<le> m'"
  shows "rne m \<le> rne m'"
proof (cases "\<lfloor>m\<rfloor> = \<lfloor>m'\<rfloor>")
  case True
  with assms show ?thesis by (auto simp: rne_def Let_def)
next
  case False
  moreover have "\<lfloor>m\<rfloor> \<le> \<lfloor>m'\<rfloor>" using assms by (rule floor_mono)
  ultimately have "\<lfloor>m\<rfloor> + 1 \<le> \<lfloor>m'\<rfloor>" by simp
  with rne_cases[of m] rne_cases[of m'] show ?thesis by auto
qed

lemma rne_eqI:
  assumes "\<bar>m - of_int n\<bar> < 1 / 2 \<or> (\<bar>m - of_int n\<bar> = 1 / 2 \<and> even n)"
  shows "rne m = n"
proof (cases "of_int n \<le> m")
  case True
  with assms have "m < of_int n + 1" by auto
  with True have f: "\<lfloor>m\<rfloor> = n" by (intro floor_unique) auto
  from assms True show ?thesis by (auto simp: rne_def f)
next
  case False
  with assms have "of_int (n - 1) \<le> m" "m < of_int (n - 1) + 1" by auto
  then have f: "\<lfloor>m\<rfloor> = n - 1" by (rule floor_unique)
  from assms False show ?thesis by (auto simp: rne_def f)
qed

lemma quantum_pos: "0 < quantum x"
  by (simp add: quantum_def)

lemma round64_eqI:
  assumes "2 powi e \<le> \<bar>x\<bar>" "\<bar>x\<bar> < 2 powi (e + 1)"
    and "u = 2 powi (max e (- 1022) - 52)"
    and "\<bar>x / u - of_int n\<bar> < 1 / 2 \<or> (\<bar>x / u - of_int n\<bar> = 1 / 2 \<and> even n)"
    and "y = of_int n * u"
    and "\<bar>y\<bar> < 2 powi 1024"
  shows "round64 x = Fin y"
proof -
  have e: "expo x = e" using assms(1,2) by (rule expo_unique)
  have "0 < (2::rat) powi e" by simp
  with assms(1) have "0 < \<bar>x\<bar>" by linarith
  then have nz: "x \<noteq> 0" by simp
  have u: "quantum x = u" by (simp add: quantum_def e assms(3))
  have "rne (x / u) = n" using assms(4) by (rule rne_eqI)
  then have "nearest x = y" by (simp add: nearest_def u assms(5))
  with nz assms(6) show ?thesis by (simp add: round64_def)
qed


lemma p2_of_int: "0 \<le> k \<Longrightarrow> (2::rat) powi k = of_int (2 ^ nat k)"
  by (simp add: power_int_def)

lemma nearest_on_grid:
  assumes "x = of_int k * quantum x"
  shows "nearest x = x"
proof -
  have "x / quantum x = of_int k"
    using quantum_pos[of x] by (subst assms) simp
  then show ?thesis using assms by (simp add: nearest_def rne_of_int)
qed

lemma nearest_mono_quantum:
  assumes "x \<le> y" "quantum x = quantum y"
  shows "nearest x \<le> nearest y"
proof -
  have "x / quantum y \<le> y / quantum y"
    using assms(1) quantum_pos[of y] by (simp add: divide_right_mono)
  then have "rne (x / quantum y) \<le> rne (y / quantum y)" by (rule rne_mono)
  then have "(of_int (rne (x / quantum y)) :: rat) \<le> of_int (rne (y / quantum y))" by simp
  then show ?thesis
    using quantum_pos[of y] by (simp add: nearest_def assms(2) mult_right_mono)
qed

lemma nearest_le_grid:
  assumes "x \<le> of_int k * quantum x"
  shows "nearest x \<le> of_int k * quantum x"
proof -
  have "x / quantum x \<le> of_int k"
    using assms quantum_pos[of x] by (simp add: pos_divide_le_eq)
  then have "rne (x / quantum x) \<le> rne (of_int k)" by (rule rne_mono)
  then have "(of_int (rne (x / quantum x)) :: rat) \<le> of_int k" by (simp add: rne_of_int)
  then show ?thesis using quantum_pos[of x] by (simp add: nearest_def mult_right_mono)
qed

lemma nearest_ge_grid:
  assumes "of_int k * quantum x \<le> x"
  shows "of_int k * quantum x \<le> nearest x"
proof -
  have "of_int k \<le> x / quantum x"
    using assms quantum_pos[of x] by (simp add: pos_le_divide_eq)
  then have "rne (of_int k) \<le> rne (x / quantum x)" by (rule rne_mono)
  then have "(of_int k :: rat) \<le> of_int (rne (x / quantum x))" by (simp add: rne_of_int)
  then show ?thesis using quantum_pos[of x] by (simp add: nearest_def mult_right_mono)
qed

lemma nearest_nonneg: "0 \<le> x \<Longrightarrow> 0 \<le> nearest x"
  using nearest_ge_grid[of 0 x] by simp

lemma nearest_nonpos: "x \<le> 0 \<Longrightarrow> nearest x \<le> 0"
  using nearest_le_grid[of x 0] by simp

lemma expo_mono:
  assumes "0 < x" "x \<le> y"
  shows "expo x \<le> expo y"
proof -
  have "2 powi (expo x) \<le> \<bar>x\<bar>" using assms by (intro expo_bounds) auto
  also have "\<bar>x\<bar> \<le> \<bar>y\<bar>" using assms by simp
  also have "\<bar>y\<bar> < 2 powi (expo y + 1)" using assms by (intro expo_bounds) auto
  finally have "expo x < expo y + 1" by (simp only: p2_less_iff)
  then show ?thesis by simp
qed

lemma nearest_mono:
  assumes "0 < x" "x \<le> y"
  shows "nearest x \<le> nearest y"
proof -
  define ex where "ex = max (expo x) (- 1022)"
  define ey where "ey = max (expo y) (- 1022)"
  have qx: "quantum x = 2 powi (ex - 52)" by (simp add: quantum_def ex_def)
  have qy: "quantum y = 2 powi (ey - 52)" by (simp add: quantum_def ey_def)
  have le: "ex \<le> ey" using expo_mono[OF assms] by (simp add: ex_def ey_def)
  show ?thesis
  proof (cases "ex = ey")
    case True
    then have "quantum x = quantum y" by (simp add: qx qy)
    with assms(2) show ?thesis by (rule nearest_mono_quantum)
  next
    case False
    with le have lt: "ex < ey" by simp
    then have ey: "ey = expo y" by (auto simp: ex_def ey_def)
    define g :: rat where "g = 2 powi ey"
    have ynz: "y \<noteq> 0" using assms by auto
    have "g \<le> \<bar>y\<bar>" unfolding g_def ey using ynz by (rule expo_bounds)
    then have gy: "g \<le> y" using assms by simp
    have gqy: "g = of_int (2 ^ 52) * quantum y"
    proof -
      have "g = 2 powi (52 + (ey - 52))" by (simp add: g_def)
      also have "\<dots> = 2 powi 52 * 2 powi (ey - 52)" by (simp only: p2_add)
      finally show ?thesis by (simp add: qy)
    qed
    have 1: "g \<le> nearest y"
      using nearest_ge_grid[of "2 ^ 52" y] gy gqy by simp
    have xnz: "x \<noteq> 0" using assms by auto
    have "\<bar>x\<bar> < 2 powi (expo x + 1)" using xnz by (rule expo_bounds)
    also have "(2::rat) powi (expo x + 1) \<le> 2 powi (ex + 1)"
      by (simp only: p2_le_iff) (simp add: ex_def)
    also have "(2::rat) powi (ex + 1) \<le> g"
    proof -
      have "ex + 1 \<le> ey" using lt by simp
      then show ?thesis unfolding g_def by (simp only: p2_le_iff)
    qed
    finally have xg: "x \<le> g" using assms by simp
    have gqx: "g = of_int (2 ^ nat (ey - ex + 52)) * quantum x"
    proof -
      have "g = 2 powi ((ey - ex + 52) + (ex - 52))" by (simp add: g_def)
      also have "\<dots> = 2 powi (ey - ex + 52) * 2 powi (ex - 52)" by (simp only: p2_add)
      also have "(2::rat) powi (ey - ex + 52) = of_int (2 ^ nat (ey - ex + 52))"
        using lt by (intro p2_of_int) simp
      finally show ?thesis by (simp only: qx)
    qed
    have 2: "nearest x \<le> g"
      using nearest_le_grid[of x "2 ^ nat (ey - ex + 52)"] xg gqx by simp
    from 1 2 show ?thesis by simp
  qed
qed

lemma round64_of_int:
  assumes "\<bar>n\<bar> \<le> 2 ^ 53"
  shows "round64 (of_int n) = Fin (of_int n)"
proof (cases "n = 0")
  case True
  then show ?thesis by (simp add: round64_def)
next
  case False
  define x :: rat where "x = of_int n"
  have xnz: "x \<noteq> 0" using False by (simp add: x_def)
  have ax: "\<bar>x\<bar> = of_int \<bar>n\<bar>" by (simp add: x_def)
  have lo: "1 \<le> \<bar>x\<bar>" using False unfolding ax by (simp add: x_def)
  have hi: "\<bar>x\<bar> \<le> 2 powi 53" using assms unfolding ax
    by (simp only: p2_of_int of_int_le_iff) simp
  have "(2::rat) powi 0 < 2 powi (expo x + 1)"
    using lo expo_bounds(2)[OF xnz] by simp
  then have "0 < expo x + 1" by (simp only: p2_less_iff)
  then have e0: "0 \<le> expo x" by simp
  have "(2::rat) powi (expo x) \<le> 2 powi 53"
    using hi expo_bounds(1)[OF xnz] by simp
  then have e53: "expo x \<le> 53" by (simp only: p2_le_iff)
  have q: "quantum x = 2 powi (expo x - 52)" using e0 by (simp add: quantum_def)
  have "\<exists>k. x = of_int k * quantum x"
  proof (cases "expo x = 53")
    case True
    have "(2::rat) powi 53 \<le> \<bar>x\<bar>" using expo_bounds(1)[OF xnz] by (simp add: True)
    with hi have "\<bar>x\<bar> = 2 ^ 53" by simp
    then have "\<bar>n\<bar> = 2 ^ 53" unfolding ax by (metis of_int_eq_iff of_int_numeral of_int_power)
    then have "n = 9007199254740992 \<or> n = - 9007199254740992" by (simp add: abs_if split: if_splits)
    then have "n = 2 * (n div 2)" by auto
    then have "x = of_int (n div 2) * 2" unfolding x_def by (metis mult.commute of_int_mult of_int_numeral)
    moreover have "quantum x = 2" by (simp add: q True)
    ultimately have "x = of_int (n div 2) * quantum x" by (simp only:)
    then show ?thesis by blast
  next
    case False
    with e53 have le: "0 \<le> 52 - expo x" by simp
    have "quantum x * 2 powi (52 - expo x) = 2 powi ((expo x - 52) + (52 - expo x))"
      unfolding q by (simp only: p2_add)
    then have "quantum x * of_int (2 ^ nat (52 - expo x)) = 1"
      using p2_of_int[OF le] by simp
    then have "x = of_int (n * 2 ^ nat (52 - expo x)) * quantum x"
      by (simp add: x_def mult.assoc mult.commute)
    then show ?thesis by blast
  qed
  then obtain k where "x = of_int k * quantum x" by blast
  then have n: "nearest x = x" by (rule nearest_on_grid)
  have "(2::rat) powi 53 < 2 powi 1024" by (simp only: p2_less_iff)
  with hi have "\<bar>x\<bar> < 2 powi 1024" by (rule le_less_trans)
  with xnz n show ?thesis by (simp add: round64_def x_def)
qed

lemma round64_not_NaN: "round64 x \<noteq> NaN"
  by (simp add: round64_def)

lemma round64_nonneg: "0 \<le> x \<Longrightarrow> fle (Fin 0) (round64 x)"
  using nearest_nonneg[of x] by (simp add: round64_def fle_def)

lemma round64_mono:
  assumes "0 \<le> x" "x \<le> y"
  shows "fle (round64 x) (round64 y)"
proof (cases "x = 0")
  case True
  then show ?thesis using round64_nonneg[of y] assms by (simp add: round64_def)
next
  case False
  with assms have x: "0 < x" and y: "0 < y" by auto
  have m: "nearest x \<le> nearest y" using x assms(2) by (rule nearest_mono)
  have "0 \<le> nearest x" "0 \<le> nearest y" using x y by (simp_all add: nearest_nonneg)
  with m x y show ?thesis by (auto simp: round64_def fle_def)
qed

lemma round64_numeral:
  "numeral k \<le> (9007199254740992::int) \<Longrightarrow> round64 (numeral k) = Fin (numeral k)"
  using round64_of_int[of "numeral k"] by simp

lemma round64_0: "round64 0 = Fin 0"
  by (simp add: round64_def)

lemma round64_1: "round64 1 = Fin 1"
  using round64_of_int[of 1] by simp

lemma round64_overflowI:
  assumes "2 powi 1024 \<le> x"
  shows "round64 x = PInf"
proof -
  have "0 < (2::rat) powi 1024" by simp
  with assms have x: "0 < x" by linarith
  then have xnz: "x \<noteq> 0" by simp
  have "(2::rat) powi 1024 < 2 powi (expo x + 1)"
    using assms expo_bounds(2)[OF xnz] x by simp
  then have "1024 < expo x + 1" by (simp only: p2_less_iff)
  then have e: "1024 \<le> expo x" by simp
  then have q: "quantum x = 2 powi (expo x - 52)" by (simp add: quantum_def)
  have "(2::rat) powi (expo x) = 2 powi (52 + (expo x - 52))" by simp
  also have "\<dots> = 2 powi 52 * 2 powi (expo x - 52)" by (simp only: p2_add)
  finally have g: "(2::rat) powi (expo x) = of_int (2 ^ 52) * quantum x" by (simp add: q)
  have "of_int (2 ^ 52) * quantum x \<le> x"
    using expo_bounds(1)[OF xnz] x by (simp only: g[symmetric] abs_of_pos)
  then have "of_int (2 ^ 52) * quantum x \<le> nearest x" by (rule nearest_ge_grid)
  then have "(2::rat) powi (expo x) \<le> nearest x" by (simp only: g)
  moreover have "(2::rat) powi 1024 \<le> 2 powi (expo x)" using e by (simp only: p2_le_iff)
  ultimately have "2 powi 1024 \<le> nearest x" by linarith
  then have "2 powi 1024 \<le> \<bar>nearest x\<bar>" by linarith
  with x xnz show ?thesis by (simp add: round64_def)
qed

section \<open>The loop\<close>

lemma sweep_upto:
  "- (2 ^ 53) \<le> a \<Longrightarrow> b < 2 ^ 53 \<Longrightarrow> length acc + nat (b + 1 - a) \<le> maxArrayLength \<Longrightarrow>
   sweep w pd p (Fin (of_int a)) (Fin (of_int b)) acc =
     Inr (acc @ map (\<lambda>i. resultFor w pd p (Fin (of_int i))) [a..b])"
proof (induction "nat (b + 1 - a)" arbitrary: a acc)
  case 0
  then have "b < a" by simp
  then show ?case by (subst sweep.simps) (simp add: fle_def)
next
  case (Suc n)
  then have le: "a \<le> b" by simp
  have room: "length acc < maxArrayLength" using Suc.prems(3) Suc.hyps(2) by simp
  have step: "fadd (Fin (of_int a)) (Fin 1) = Fin (of_int (a + 1))"
    using round64_of_int[of "a + 1"] Suc.prems le by (simp add: fadd_def)
  have n: "n = nat (b + 1 - (a + 1))" using Suc.hyps(2) by simp
  have "- (2 ^ 53) \<le> a + 1" using Suc.prems by simp
  moreover have "length (acc @ [r]) + nat (b + 1 - (a + 1)) \<le> maxArrayLength" for r
    using Suc.prems(3) Suc.hyps(2) by simp
  ultimately have IH: "sweep w pd p (Fin (of_int (a + 1))) (Fin (of_int b)) (acc @ [r]) =
     Inr ((acc @ [r]) @ map (\<lambda>i. resultFor w pd p (Fin (of_int i))) [a + 1..b])" for r
    using Suc.hyps(1)[OF n] Suc.prems(2) by blast
  show ?case
    using le room
    by (subst sweep.simps) (simp add: fle_def step[simplified] IH[simplified] upto_rec1[of a b])
qed

lemma sweep_too_long:
  "- (2 ^ 53) \<le> a \<Longrightarrow> b < 2 ^ 53 \<Longrightarrow> length acc \<le> maxArrayLength \<Longrightarrow>
   maxArrayLength < length acc + nat (b + 1 - a) \<Longrightarrow>
   sweep w pd p (Fin (of_int a)) (Fin (of_int b)) acc = Inl RangeError"
proof (induction "nat (b + 1 - a)" arbitrary: a acc)
  case 0
  then show ?case by simp
next
  case (Suc n)
  then have le: "a \<le> b" by simp
  show ?case
  proof (cases "length acc < maxArrayLength")
    case True
    have step: "fadd (Fin (of_int a)) (Fin 1) = Fin (of_int (a + 1))"
      using round64_of_int[of "a + 1"] Suc.prems le by (simp add: fadd_def)
    have n: "n = nat (b + 1 - (a + 1))" using Suc.hyps(2) by simp
    have "- (2 ^ 53) \<le> a + 1" using Suc.prems by simp
    moreover have "length (acc @ [r]) \<le> maxArrayLength" for r using True by simp
    moreover have "maxArrayLength < length (acc @ [r]) + nat (b + 1 - (a + 1))" for r
      using Suc.prems(4) Suc.hyps(2) by simp
    ultimately have IH: "sweep w pd p (Fin (of_int (a + 1))) (Fin (of_int b)) (acc @ [r]) =
        Inl RangeError" for r
      using Suc.hyps(1)[OF n] Suc.prems(2) by blast
    show ?thesis
      using le True by (subst sweep.simps) (simp add: fle_def step[simplified] IH[simplified])
  next
    case False
    then show ?thesis using le by (subst sweep.simps) (simp add: fle_def)
  qed
qed

lemma sweep_results:
  "sweep w pd p i m acc = Inr rs \<Longrightarrow> \<exists>js. rs = acc @ map (resultFor w pd p) js"
proof (induction w pd p i m acc rule: sweep.induct)
  case (1 w pd p i m acc)
  show ?case
  proof (cases "fle i m \<and> length acc < maxArrayLength")
    case True
    with 1(2) have "sweep w pd p (fadd i (Fin 1)) m (acc @ [resultFor w pd p i]) = Inr rs"
      by (subst (asm) sweep.simps) simp
    with 1(1) True obtain js where
      "rs = (acc @ [resultFor w pd p i]) @ map (resultFor w pd p) js" by blast
    then have "rs = acc @ map (resultFor w pd p) (i # js)" by simp
    then show ?thesis by blast
  next
    case False
    with 1(2) have "rs = acc @ map (resultFor w pd p) []"
      by (subst (asm) sweep.simps) (auto split: if_splits)
    then show ?thesis by blast
  qed
qed

section \<open>The results of a run\<close>

lemmas parse_defs = parseFloat_def parseInt_def takeSign_def isWhiteSpace_def isDigit_def
  digitsValue_def signed_def exponentPart_def

lemma percent_resultFor: "percent (resultFor w pd p i) = i"
  by (simp add: resultFor_def Let_def)

lemma calculateAndSelect_results:
  assumes "calculateAndSelect c sel st = Inr st'"
  shows "(newErrors st \<noteq> noErrors \<and> results st' = [] \<and> selectedResult st' = None) \<or>
    (newErrors st = noErrors \<and>
     sweep (parseFloat (st_goldWeight st)) (sweepPurityDecimal c (currentPurity c st))
       (parseFloat (st_goldPrice st)) (parseInt (st_minPercent st)) (parseInt (st_maxPercent st)) []
       = Inr (results st') \<and>
     selectedResult st' = select sel (results st'))"
proof -
  have p: "currentPurity c (st\<lparr>errors := e\<rparr>) = currentPurity c st" for e
    by (cases c) simp_all
  show ?thesis
    using assms
    by (auto simp: calculateAndSelect_def validate_def Let_def p split: if_splits sum.splits)
qed

lemma calculateAndSelect_result_form:
  assumes "calculateAndSelect c sel st = Inr st'" "r \<in> set (results st')"
  shows "r = resultFor (parseFloat (st_goldWeight st)) (sweepPurityDecimal c (currentPurity c st))
       (parseFloat (st_goldPrice st)) (percent r)"
proof -
  from calculateAndSelect_results[OF assms(1)] assms(2)
  have "sweep (parseFloat (st_goldWeight st)) (sweepPurityDecimal c (currentPurity c st))
       (parseFloat (st_goldPrice st)) (parseInt (st_minPercent st)) (parseInt (st_maxPercent st)) []
       = Inr (results st')" by auto
  from sweep_results[OF this] assms(2) obtain i where
    "r = resultFor (parseFloat (st_goldWeight st)) (sweepPurityDecimal c (currentPurity c st))
       (parseFloat (st_goldPrice st)) i" by auto
  then show ?thesis by (simp add: percent_resultFor)
qed

lemma gold_example_valid: "newErrors gold_example = noErrors"
  by (simp add: newErrors_def gold_example_def parse_defs round64_numeral fle_def flt_def fgt_def)

lemma gold_example_run:
  "calculateAndSelect Gold sel gold_example =
     Inr (gold_example\<lparr>results := map (\<lambda>i. resultFor (Fin 10) (literal (92 / 100)) (Fin 7200) (Fin (of_int i))) [8..14],
       selectedResult := select sel (map (\<lambda>i. resultFor (Fin 10) (literal (92 / 100)) (Fin 7200) (Fin (of_int i))) [8..14])\<rparr>)"
proof -
  have g: "gold_example\<lparr>errors := noErrors\<rparr> = gold_example" by (simp add: gold_example_def)
  have s: "sweep w pd p (Fin 8) (Fin 14) [] = Inr (map (\<lambda>i. resultFor w pd p (Fin (of_int i))) [8..14])" for w pd p
    using sweep_upto[where a = 8 and b = 14 and acc = "[]" and w = w and pd = pd and p = p]
    by (simp add: maxArrayLength_def)
  have ps: "parseFloat (st_goldPrice gold_example) = Fin 7200"
    "parseFloat (st_goldWeight gold_example) = Fin 10"
    "parseInt (st_minPercent gold_example) = Fin 8"
    "parseInt (st_maxPercent gold_example) = Fin 14"
    by (simp_all add: gold_example_def parse_defs round64_numeral)
  have pu: "st_purity gold_example = P916" by (simp add: gold_example_def)
  show ?thesis
    by (simp add: calculateAndSelect_def validate_def gold_example_valid g ps pu s Let_def)
qed

section \<open>The gold example, computed\<close>

lemma purityDecimal_gold_916: "sweepPurityDecimal Gold P916 = Fin (8286623314361713 / 9007199254740992)"
  by (simp add: literal_def, rule round64_eqI[where e = "-1" and n = "8286623314361713" and u = "1 / 2 ^ 53"], simp_all)

lemma gold_weight_times_purity: "fmul (Fin 10) (Fin (8286623314361713 / 9007199254740992)) = Fin (5179139571476071 / 562949953421312)"
  by (simp add: fmul_def, rule round64_eqI[where e = "3" and n = "5179139571476071" and u = "1 / 2 ^ 49"], simp_all)

lemma gold_purityValue: "fmul (Fin (5179139571476071 / 562949953421312)) (Fin 7200) = Fin (4551978138992641 / 68719476736)"
  by (simp add: fmul_def, rule round64_eqI[where e = "16" and n = "4551978138992641" and u = "1 / 2 ^ 36"], simp_all)

lemma percent_8_decimal: "fdiv (Fin 8) (Fin 100) = Fin (5764607523034235 / 72057594037927936)"
  by (simp add: fdiv_def, rule round64_eqI[where e = "-4" and n = "5764607523034235" and u = "1 / 2 ^ 56"], simp_all)

lemma gold_weight_times_8: "fmul (Fin 10) (Fin (5764607523034235 / 72057594037927936)) = Fin (3602879701896397 / 4503599627370496)"
  by (simp add: fmul_def, rule round64_eqI[where e = "-1" and n = "7205759403792794" and u = "1 / 2 ^ 53"], simp_all)

lemma gold_wastageValue_8: "fmul (Fin (3602879701896397 / 4503599627370496)) (Fin 7200) = Fin 5760"
  by (simp add: fmul_def, rule round64_eqI[where e = "12" and n = "6333186975989760" and u = "1 / 2 ^ 40"], simp_all)

lemma gold_total_8: "fadd (Fin (4551978138992641 / 68719476736)) (Fin 5760) = Fin (4947802324992001 / 68719476736)"
  by (simp add: fadd_def, rule round64_eqI[where e = "16" and n = "4947802324992001" and u = "1 / 2 ^ 36"], simp_all)

lemma gold_rate: "fmul (Fin 7200) (Fin (8286623314361713 / 9007199254740992)) = Fin 6624"
  by (simp add: fmul_def, rule round64_eqI[where e = "12" and n = "7283165022388224" and u = "1 / 2 ^ 40"], simp_all)

lemma gold_wastageInGrams_8: "fdiv (Fin 5760) (Fin 6624) = Fin (7832347178035645 / 9007199254740992)"
  by (simp add: fdiv_def, rule round64_eqI[where e = "-1" and n = "7832347178035645" and u = "1 / 2 ^ 53"], simp_all)


lemma gold_rate_positive: "fgt (Fin 6624) (Fin 0)"
  by (simp add: fgt_def flt_def)

lemma gold_row_8:
  "resultFor (Fin 10) (sweepPurityDecimal Gold P916) (Fin 7200) (Fin 8) =
     \<lparr>percent = Fin 8, wastageValue = Fin 5760,
        purityValue = Fin (4551978138992641 / 68719476736),
        total = Fin (4947802324992001 / 68719476736),
        wastageInGrams = Fin (7832347178035645 / 9007199254740992)\<rparr>"
  by (simp add: resultFor_def Let_def purityDecimal_gold_916 gold_weight_times_purity
      gold_purityValue percent_8_decimal gold_weight_times_8 gold_wastageValue_8 gold_total_8
      gold_rate gold_wastageInGrams_8 gold_rate_positive del: sweepPurityDecimal.simps)


section \<open>Claims\<close>

text \<open>
  C4: in every result that \<^verbatim>\<open>calculateAndSelect\<close> produces, in each of the three components
  and from any state, the \<open>total\<close> field is the sum \<^verbatim>\<open>purityValue + wastageValue\<close> of the two
  fields of that result, as the operator \<^verbatim>\<open>+\<close> of the language computes it; no rounding to
  a number of decimals is applied to it.
\<close>

theorem sweep_total_is_sum:
  assumes "calculateAndSelect c sel st = Inr st'" and "r \<in> set (results st')"
  shows "total r = fadd (purityValue r) (wastageValue r)"
  by (subst (1 2 3) calculateAndSelect_result_form[OF assms]) (simp add: resultFor_def Let_def)

theorem sweep_total_is_sum_witness:
  "\<not> isl (calculateAndSelect Gold None gold_example) \<and>
   hd (results (projr (calculateAndSelect Gold None gold_example)))
     \<in> set (results (projr (calculateAndSelect Gold None gold_example))) \<and>
   total (hd (results (projr (calculateAndSelect Gold None gold_example)))) =
     fadd (purityValue (hd (results (projr (calculateAndSelect Gold None gold_example)))))
          (wastageValue (hd (results (projr (calculateAndSelect Gold None gold_example)))))"
proof -
  let ?st' = "projr (calculateAndSelect Gold None gold_example)"
  have run: "calculateAndSelect Gold None gold_example = Inr ?st'"
    by (simp add: gold_example_run)
  have mem: "hd (results ?st') \<in> set (results ?st')"
    by (simp add: gold_example_run)
  have ret: "\<not> isl (calculateAndSelect Gold None gold_example)"
    by (simp add: gold_example_run)
  from ret mem sweep_total_is_sum[OF run mem] show ?thesis by blast
qed

text \<open>
  C5: within one run of \<^verbatim>\<open>calculateAndSelect\<close>, every result carries the same \<open>purityValue\<close>,
  the product \<^verbatim>\<open>weight * purityDecimal * price\<close>, in which the percent does not occur. Every
  result is the loop body applied to its own percent, so two results differ at most in
  \<open>percent\<close>, \<open>wastageValue\<close>, \<open>total\<close> and \<open>wastageInGrams\<close>.
\<close>

theorem purityValue_constant:
  assumes "calculateAndSelect c sel st = Inr st'"
    and "r \<in> set (results st')" and "r' \<in> set (results st')"
  shows "purityValue r = purityValue r' \<and>
    purityValue r = fmul (fmul (parseFloat (st_goldWeight st))
           (sweepPurityDecimal c (currentPurity c st))) (parseFloat (st_goldPrice st)) \<and>
    r = resultFor (parseFloat (st_goldWeight st)) (sweepPurityDecimal c (currentPurity c st))
           (parseFloat (st_goldPrice st)) (percent r)"
proof -
  let ?row = "resultFor (parseFloat (st_goldWeight st)) (sweepPurityDecimal c (currentPurity c st))
           (parseFloat (st_goldPrice st))"
  have r: "r = ?row (percent r)" using assms(1,2) by (rule calculateAndSelect_result_form)
  have r': "r' = ?row (percent r')" using assms(1,3) by (rule calculateAndSelect_result_form)
  have pv: "purityValue (?row i) = fmul (fmul (parseFloat (st_goldWeight st))
           (sweepPurityDecimal c (currentPurity c st))) (parseFloat (st_goldPrice st))" for i
    by (simp add: resultFor_def Let_def)
  have 1: "purityValue r = fmul (fmul (parseFloat (st_goldWeight st))
           (sweepPurityDecimal c (currentPurity c st))) (parseFloat (st_goldPrice st))"
    by (subst r) (rule pv)
  have 2: "purityValue r' = fmul (fmul (parseFloat (st_goldWeight st))
           (sweepPurityDecimal c (currentPurity c st))) (parseFloat (st_goldPrice st))"
    by (subst r') (rule pv)
  from 1 2 r show ?thesis by simp
qed

theorem purityValue_constant_witness:
  "\<not> isl (calculateAndSelect Gold None gold_example) \<and>
   hd (results (projr (calculateAndSelect Gold None gold_example)))
     \<in> set (results (projr (calculateAndSelect Gold None gold_example))) \<and>
   last (results (projr (calculateAndSelect Gold None gold_example)))
     \<in> set (results (projr (calculateAndSelect Gold None gold_example))) \<and>
   percent (hd (results (projr (calculateAndSelect Gold None gold_example)))) = Fin 8 \<and>
   percent (last (results (projr (calculateAndSelect Gold None gold_example)))) = Fin 14 \<and>
   purityValue (hd (results (projr (calculateAndSelect Gold None gold_example)))) =
     purityValue (last (results (projr (calculateAndSelect Gold None gold_example))))"
proof -
  let ?st' = "projr (calculateAndSelect Gold None gold_example)"
  have run: "calculateAndSelect Gold None gold_example = Inr ?st'"
    by (simp add: gold_example_run)
  have ret: "\<not> isl (calculateAndSelect Gold None gold_example)"
    by (simp add: gold_example_run)
  have mem: "hd (results ?st') \<in> set (results ?st')" "last (results ?st') \<in> set (results ?st')"
    by (simp_all add: gold_example_run)
  have pc: "percent (hd (results ?st')) = Fin 8" "percent (last (results ?st')) = Fin 14"
    by (simp_all add: gold_example_run percent_resultFor)
  from ret mem pc purityValue_constant[OF run mem] show ?thesis by blast
qed

text \<open>
  C6: for every run of the loop, from a validated state or not, \<open>wastageInGrams\<close> is
  \<^verbatim>\<open>wastageValue / rate\<close> when the rate \<^verbatim>\<open>price * purityDecimal\<close> is greater than 0, and
  exactly 0 otherwise (a rate that is 0, negative or \<open>NaN\<close>); the division is only made by a
  rate that is neither 0 nor \<open>NaN\<close>.
\<close>

theorem wastageInGrams_guarded:
  assumes "calculateAndSelect c sel st = Inr st'" and "r \<in> set (results st')"
    and "rate = fmul (parseFloat (st_goldPrice st)) (sweepPurityDecimal c (currentPurity c st))"
  shows "wastageInGrams r = (if fgt rate (Fin 0) then fdiv (wastageValue r) rate else Fin 0) \<and>
    (fgt rate (Fin 0) \<longrightarrow> rate \<noteq> Fin 0 \<and> rate \<noteq> NaN)"
proof -
  have "wastageInGrams r = (if fgt rate (Fin 0) then fdiv (wastageValue r) rate else Fin 0)"
    by (subst (1 2) calculateAndSelect_result_form[OF assms(1,2)])
       (simp add: resultFor_def Let_def assms(3))
  moreover have "fgt rate (Fin 0) \<longrightarrow> rate \<noteq> Fin 0 \<and> rate \<noteq> NaN"
    by (auto simp: fgt_def flt_def)
  ultimately show ?thesis by simp
qed

theorem wastageInGrams_guarded_witness:
  "\<not> isl (calculateAndSelect Gold None gold_example) \<and>
   hd (results (projr (calculateAndSelect Gold None gold_example)))
     \<in> set (results (projr (calculateAndSelect Gold None gold_example))) \<and>
   fmul (parseFloat (st_goldPrice gold_example))
      (sweepPurityDecimal Gold (currentPurity Gold gold_example)) = Fin 6624 \<and>
   fgt (Fin 6624) (Fin 0) \<and>
   wastageInGrams (hd (results (projr (calculateAndSelect Gold None gold_example)))) =
     fdiv (wastageValue (hd (results (projr (calculateAndSelect Gold None gold_example))))) (Fin 6624)"
proof -
  let ?st' = "projr (calculateAndSelect Gold None gold_example)"
  have run: "calculateAndSelect Gold None gold_example = Inr ?st'"
    by (simp add: gold_example_run)
  have ret: "\<not> isl (calculateAndSelect Gold None gold_example)"
    by (simp add: gold_example_run)
  have mem: "hd (results ?st') \<in> set (results ?st')"
    by (simp add: gold_example_run)
  have rate: "Fin 6624 = fmul (parseFloat (st_goldPrice gold_example))
      (sweepPurityDecimal Gold (currentPurity Gold gold_example))"
    by (simp add: gold_example_def parse_defs round64_numeral purityDecimal_gold_916 gold_rate
        del: sweepPurityDecimal.simps)
  from wastageInGrams_guarded[OF run mem rate] ret mem rate gold_rate_positive
  show ?thesis by simp
qed

text \<open>
  C8: after \<^verbatim>\<open>calculateAndSelect\<close> with a target percent, the selection is the result whose
  percent is \<^verbatim>\<open>===\<close> the target; when there is none it is the first result; when there are
  no results it is none.
\<close>

theorem selection_by_target:
  assumes "calculateAndSelect c (Some target) st = Inr st'"
  shows "selectedResult st' =
    (case find (\<lambda>r. strictEq (percent r) target) (results st') of
       Some r \<Rightarrow> Some r
     | None \<Rightarrow> (case results st' of [] \<Rightarrow> None | first # _ \<Rightarrow> Some first))"
  using calculateAndSelect_results[OF assms]
  by (auto simp: select_def firstResult_def split: option.splits)

theorem selection_by_target_witness:
  "\<not> isl (calculateAndSelect Gold (Some (Fin 12)) gold_example) \<and>
   selectedResult (projr (calculateAndSelect Gold (Some (Fin 12)) gold_example)) =
     Some (resultFor (Fin 10) (sweepPurityDecimal Gold P916) (Fin 7200) (Fin 12)) \<and>
   selectedResult (projr (calculateAndSelect Gold (Some (Fin 20)) gold_example)) =
     Some (resultFor (Fin 10) (sweepPurityDecimal Gold P916) (Fin 7200) (Fin 8))"
proof -
  have run: "calculateAndSelect Gold (Some t) gold_example =
      Inr (projr (calculateAndSelect Gold (Some t) gold_example))" for t
    by (simp add: gold_example_run)
  have ret: "\<not> isl (calculateAndSelect Gold (Some (Fin 12)) gold_example)"
    by (simp add: gold_example_run)
  have rs: "results (projr (calculateAndSelect Gold (Some t) gold_example)) =
      map (\<lambda>i. resultFor (Fin 10) (sweepPurityDecimal Gold P916) (Fin 7200) (Fin (of_int i))) [8..14]" for t
    by (simp add: gold_example_run)
  from selection_by_target[OF run[of "Fin 12"]] selection_by_target[OF run[of "Fin 20"]] ret
  show ?thesis
    by (simp add: rs percent_resultFor strictEq_def)
qed

text \<open>
  C9, as stated, fails: for the gold calculator with price 7200, weight 10, purity 916 and
  the range 8 to 14, the result at percent 8 has a \<open>purityValue\<close> other than 66240 and a
  \<open>total\<close> other than 72000, because \<^verbatim>\<open>10 * 0.92\<close> is rounded up in binary64.
\<close>

theorem gold_scenario_not_exact:
  "purityValue (hd (results (projr (calculateAndSelect Gold None gold_example)))) \<noteq> Fin 66240 \<and>
   total (hd (results (projr (calculateAndSelect Gold None gold_example)))) \<noteq> Fin 72000"
  by (simp add: gold_example_run gold_row_8[simplified])

text \<open>
  C9, amended: that run returns 7 results, and its result at percent 8 has
  \<open>wastageValue\<close> 5760, \<open>purityValue\<close> \<open>66240 + 2 powi (- 36)\<close> (the binary64 value next
  above 66240, printed 66240.00000000001), \<open>total\<close> \<open>72000 + 2 powi (- 36)\<close> (printed
  72000.00000000001) and \<open>wastageInGrams\<close> the binary64 quotient of 5760 by 6624, which
  is 0.8696 to four decimals.
\<close>

theorem gold_scenario:
  "\<not> isl (calculateAndSelect Gold None gold_example) \<and>
   length (results (projr (calculateAndSelect Gold None gold_example))) = 7 \<and>
   find (\<lambda>r. strictEq (percent r) (Fin 8)) (results (projr (calculateAndSelect Gold None gold_example))) =
     Some \<lparr>percent = Fin 8, wastageValue = Fin 5760,
            purityValue = Fin (66240 + 1 / 2 ^ 36),
            total = Fin (72000 + 1 / 2 ^ 36),
            wastageInGrams = Fin (7832347178035645 / 2 ^ 53)\<rparr> \<and>
   \<bar>7832347178035645 / 2 ^ 53 - 8696 / 10000\<bar> < (1 / 10000 :: rat)"
  by (simp add: gold_example_run gold_row_8[simplified] strictEq_def)

section \<open>Validated states and the saturated counter\<close>

lemma validated_conditions:
  assumes "newErrors st = noErrors"
  shows "st_goldPrice st \<noteq> [] \<and> \<not> fle (parseFloat (st_goldPrice st)) (Fin 0) \<and>
    st_goldWeight st \<noteq> [] \<and> \<not> fle (parseFloat (st_goldWeight st)) (Fin 0) \<and>
    st_minPercent st \<noteq> [] \<and> \<not> flt (parseInt (st_minPercent st)) (Fin 0) \<and>
    st_maxPercent st \<noteq> [] \<and> \<not> flt (parseInt (st_maxPercent st)) (Fin 0) \<and>
    \<not> fgt (parseInt (st_minPercent st)) (parseInt (st_maxPercent st))"
  using assms
  by (auto simp: newErrors_def noErrors_def Let_def split: if_splits)

lemma calculateAndSelect_validated:
  assumes "newErrors st = noErrors"
    and "sweep (parseFloat (st_goldWeight st)) (sweepPurityDecimal c (currentPurity c st))
       (parseFloat (st_goldPrice st)) (parseInt (st_minPercent st)) (parseInt (st_maxPercent st)) []
       = Inr rs"
  shows "calculateAndSelect c sel st =
    Inr (st\<lparr>errors := noErrors, results := rs, selectedResult := select sel rs\<rparr>)"
proof -
  have p: "currentPurity c (st\<lparr>errors := e\<rparr>) = currentPurity c st" for e
    by (cases c) simp_all
  show ?thesis
    by (simp add: calculateAndSelect_def validate_def Let_def p assms)
qed

lemma sorted_wrt_upto: "sorted_wrt (<) [a..b]"
  using sorted_upto[of a b] distinct_upto[of a b] by (simp add: strict_sorted_iff)

lemma increment_saturates:
  "fadd (Fin 9007199254740992) (Fin 1) = Fin 9007199254740992"
  by (simp add: fadd_def, rule round64_eqI[where e = "53" and n = "4503599627370496" and u = "2"], simp_all)

lemma sweep_saturated:
  "sweep w pd p (Fin 9007199254740992) (Fin 9007199254740992) acc = Inl RangeError"
proof (induction "maxArrayLength - length acc" arbitrary: acc)
  case 0
  then show ?case by (subst sweep.simps) (simp add: fle_def)
next
  case (Suc n)
  then have "n = maxArrayLength - length (acc @ [r])" for r by simp
  then have "sweep w pd p (Fin 9007199254740992) (Fin 9007199254740992) (acc @ [r]) =
      Inl RangeError" for r
    by (rule Suc.hyps(1))
  then show ?case
    by (subst sweep.simps) (simp add: fle_def increment_saturates)
qed

lemma long_range_example_thrown:
  "sweep w pd p (Fin (of_int 0)) (Fin (of_int 4294967295)) [] = Inl RangeError"
  by (rule sweep_too_long) (simp_all add: maxArrayLength_def)

text \<open>
  C3, as stated, fails. With both bounds \<open>2 ^ 53\<close> the state is validated and the bounds
  parse to integers with min \<open>\<le>\<close> max, but \<^verbatim>\<open>i++\<close> leaves the counter at \<open>2 ^ 53\<close>, the
  loop condition stays true, and the run ends with the \<^verbatim>\<open>RangeError\<close> of a full array in
  place of its one result. With the bounds 0 and \<open>2 ^ 32 - 1\<close> the range has \<open>2 ^ 32\<close>
  percents, one more than an array holds, and the run ends with the same exception.
\<close>

theorem sweep_saturated_counterexample:
  "newErrors saturated_example = noErrors \<and>
   parseInt (st_minPercent saturated_example) = Fin 9007199254740992 \<and>
   parseInt (st_maxPercent saturated_example) = Fin 9007199254740992 \<and>
   calculateAndSelect Gold None saturated_example = Inl RangeError \<and>
   newErrors long_range_example = noErrors \<and>
   parseInt (st_minPercent long_range_example) = Fin 0 \<and>
   parseInt (st_maxPercent long_range_example) = Fin 4294967295 \<and>
   calculateAndSelect Gold None long_range_example = Inl RangeError"
proof -
  have v: "newErrors saturated_example = noErrors"
    by (simp add: newErrors_def saturated_example_def gold_example_def parse_defs round64_numeral
        fle_def flt_def fgt_def)
  have p: "parseInt (st_minPercent saturated_example) = Fin 9007199254740992"
    "parseInt (st_maxPercent saturated_example) = Fin 9007199254740992"
    by (simp_all add: saturated_example_def gold_example_def parse_defs round64_numeral)
  have r: "calculateAndSelect Gold None saturated_example = Inl RangeError"
    by (simp add: calculateAndSelect_def validate_def v Let_def p sweep_saturated)
  have v': "newErrors long_range_example = noErrors"
    by (simp add: newErrors_def long_range_example_def gold_example_def parse_defs round64_numeral
        round64_0 fle_def flt_def fgt_def)
  have p': "parseInt (st_minPercent long_range_example) = Fin 0"
    "parseInt (st_maxPercent long_range_example) = Fin 4294967295"
    by (simp_all add: long_range_example_def gold_example_def parse_defs round64_numeral round64_0)
  have r': "calculateAndSelect Gold None long_range_example = Inl RangeError"
    using long_range_example_thrown
    by (simp add: calculateAndSelect_def validate_def v' Let_def p')
  from v p r v' p' r' show ?thesis by simp
qed

text \<open>
  C3, amended: for every validated state whose bounds parse to the integers \<open>a\<close> and \<open>b\<close>
  with \<open>b < 2 ^ 53\<close> and at most \<open>2 ^ 32 - 1\<close> integers from \<open>a\<close> to \<open>b\<close> (validation gives
  \<open>0 \<le> a \<le> b\<close>), the run returns, with exactly \<open>b - a + 1\<close> results, at least one, whose
  percents are the integers from \<open>a\<close> to \<open>b\<close> in strictly ascending order.
\<close>

theorem sweep_enumerates:
  assumes "newErrors st = noErrors"
    and "parseInt (st_minPercent st) = Fin (of_int a)"
    and "parseInt (st_maxPercent st) = Fin (of_int b)"
    and "b < 2 ^ 53"
    and "b - a < 4294967295"
  shows "\<exists>st'. calculateAndSelect c sel st = Inr st' \<and>
    map percent (results st') = map (\<lambda>i. Fin (of_int i)) [a..b] \<and>
    length (results st') = nat (b - a + 1) \<and>
    0 < length (results st') \<and>
    sorted_wrt (\<lambda>r r'. flt (percent r) (percent r')) (results st')"
proof -
  let ?w = "parseFloat (st_goldWeight st)"
  let ?pd = "sweepPurityDecimal c (currentPurity c st)"
  let ?p = "parseFloat (st_goldPrice st)"
  let ?rs = "map (\<lambda>i. resultFor ?w ?pd ?p (Fin (of_int i))) [a..b]"
  from validated_conditions[OF assms(1)] assms(2,3)
  have a0: "0 \<le> a" and ab: "a \<le> b"
    by (auto simp: flt_def fgt_def)
  have "sweep ?w ?pd ?p (Fin (of_int a)) (Fin (of_int b)) [] = Inr ([] @ ?rs)"
    using a0 assms(4,5) by (intro sweep_upto) (simp_all add: maxArrayLength_def)
  then have run: "calculateAndSelect c sel st =
      Inr (st\<lparr>errors := noErrors, results := ?rs, selectedResult := select sel ?rs\<rparr>)"
    using assms(1-3) by (intro calculateAndSelect_validated) simp_all
  have pc: "map percent ?rs = map (\<lambda>i. Fin (of_int i)) [a..b]"
    by (simp add: percent_resultFor comp_def)
  have len: "length ?rs = nat (b - a + 1)" by simp
  have pos: "0 < length ?rs" using ab by simp
  have "sorted_wrt (\<lambda>i j. flt (Fin (of_int i)) (Fin (of_int j))) [a..b]"
    using sorted_wrt_upto[of a b] by (rule sorted_wrt_mono_rel[rotated]) (simp add: flt_def)
  then have srt: "sorted_wrt (\<lambda>r r'. flt (percent r) (percent r')) ?rs"
    by (simp add: sorted_wrt_map percent_resultFor)
  from run pc len pos srt show ?thesis by simp
qed

theorem sweep_enumerates_witness:
  "newErrors gold_example = noErrors \<and>
   parseInt (st_minPercent gold_example) = Fin (of_int 8) \<and>
   parseInt (st_maxPercent gold_example) = Fin (of_int 14) \<and>
   (14 :: int) < 2 ^ 53 \<and> (14 :: int) - 8 < 4294967295 \<and>
   \<not> isl (calculateAndSelect Gold None gold_example) \<and>
   map percent (results (projr (calculateAndSelect Gold None gold_example))) =
     [Fin 8, Fin 9, Fin 10, Fin 11, Fin 12, Fin 13, Fin 14] \<and>
   length (results (projr (calculateAndSelect Gold None gold_example))) = 7"
proof -
  have p: "parseInt (st_minPercent gold_example) = Fin (of_int 8)"
    "parseInt (st_maxPercent gold_example) = Fin (of_int 14)"
    by (simp_all add: gold_example_def parse_defs round64_numeral)
  have b: "(14 :: int) < 2 ^ 53" "(14 :: int) - 8 < 4294967295" by simp_all
  from sweep_enumerates[OF gold_example_valid p b, of Gold None]
  obtain st' where "calculateAndSelect Gold None gold_example = Inr st'"
    "map percent (results st') = map (\<lambda>i. Fin (of_int i)) [8..14]"
    "length (results st') = nat (14 - 8 + 1)"
    by blast
  with gold_example_valid p b show ?thesis by simp
qed

section \<open>The saved calculations\<close>

lemma handleSave_validated:
  assumes "newErrors st = noErrors"
  shows "savedCalculations (handleSave c now st) =
    \<lparr>id' = now, goldPrice = st_goldPrice st, goldWeight = st_goldWeight st,
       purity = currentPurity c st, minPercent = st_minPercent st,
       maxPercent = st_maxPercent st,
       selectedPercent = map_option percent (selectedResult st)\<rparr>
    # take 9 (savedCalculations st)"
proof -
  have p: "currentPurity c (st\<lparr>errors := e\<rparr>) = currentPurity c st" for e
    by (cases c) simp_all
  show ?thesis
    by (simp add: handleSave_def setSavedCalculations_def validate_def assms Let_def p)
qed

lemma handleSave_rejected:
  assumes "newErrors st \<noteq> noErrors"
  shows "savedCalculations (handleSave c now st) = savedCalculations st"
  by (simp add: handleSave_def validate_def assms)

lemma take_9_butlast: "length xs = 10 \<Longrightarrow> take 9 xs = butlast xs"
  by (simp add: butlast_conv_take)

text \<open>
  C7: a list of saved calculations with at most 10 entries has at most 10 entries after
  \<^verbatim>\<open>handleSave\<close> and after \<^verbatim>\<open>deleteCalculation\<close>. A save from a validated state puts the
  new entry, with the current inputs and the selected percent, at index 0, followed by the
  first 9 of the old entries; when there were 10, exactly the last one is dropped.
\<close>

theorem store_bounded:
  assumes "length (savedCalculations st) \<le> 10"
  shows "length (savedCalculations (handleSave c now st)) \<le> 10 \<and>
    length (savedCalculations (deleteCalculation i st)) \<le> 10 \<and>
    (newErrors st = noErrors \<longrightarrow>
       savedCalculations (handleSave c now st) =
         \<lparr>id' = now, goldPrice = st_goldPrice st, goldWeight = st_goldWeight st,
            purity = currentPurity c st, minPercent = st_minPercent st,
            maxPercent = st_maxPercent st,
            selectedPercent = map_option percent (selectedResult st)\<rparr>
         # take 9 (savedCalculations st) \<and>
       (length (savedCalculations st) = 10 \<longrightarrow>
          tl (savedCalculations (handleSave c now st)) = butlast (savedCalculations st)))"
proof -
  have 1: "length (savedCalculations (handleSave c now st)) \<le> 10"
  proof (cases "newErrors st = noErrors")
    case True
    then show ?thesis by (simp add: handleSave_validated)
  next
    case False
    then show ?thesis using assms by (simp add: handleSave_rejected)
  qed
  have 2: "length (savedCalculations (deleteCalculation i st)) \<le> 10"
    using le_trans[OF length_filter_le assms]
    by (simp add: deleteCalculation_def setSavedCalculations_def)
  from 1 2 show ?thesis
    by (simp add: handleSave_validated take_9_butlast)
qed

theorem store_bounded_witness:
  "length (savedCalculations full_store_example) \<le> 10 \<and>
   newErrors full_store_example = noErrors \<and>
   length (savedCalculations full_store_example) = 10 \<and>
   map id' (savedCalculations (handleSave Gold ''11'' full_store_example)) =
     [''11'', ''10'', ''9'', ''8'', ''7'', ''6'', ''5'', ''4'', ''3'', ''2''] \<and>
   map id' (savedCalculations (deleteCalculation ''7'' full_store_example)) =
     [''10'', ''9'', ''8'', ''6'', ''5'', ''4'', ''3'', ''2'', ''1'']"
proof -
  have len: "length (savedCalculations full_store_example) \<le> 10"
    "length (savedCalculations full_store_example) = 10"
    by (simp_all add: full_store_example_def)
  have v: "newErrors full_store_example = noErrors"
    using gold_example_valid by (simp add: newErrors_def full_store_example_def)
  have d: "map id' (savedCalculations (deleteCalculation ''7'' full_store_example)) =
     [''10'', ''9'', ''8'', ''6'', ''5'', ''4'', ''3'', ''2'', ''1'']"
    by (simp add: deleteCalculation_def setSavedCalculations_def full_store_example_def
        savedQuote_def)
  from store_bounded[OF len(1), of Gold "''11''" "''7''"] v len(2)
  have "savedCalculations (handleSave Gold ''11'' full_store_example) =
         \<lparr>id' = ''11'', goldPrice = st_goldPrice full_store_example,
            goldWeight = st_goldWeight full_store_example,
            purity = currentPurity Gold full_store_example,
            minPercent = st_minPercent full_store_example,
            maxPercent = st_maxPercent full_store_example,
            selectedPercent = map_option percent (selectedResult full_store_example)\<rparr>
         # take 9 (savedCalculations full_store_example)"
    by blast
  then have "map id' (savedCalculations (handleSave Gold ''11'' full_store_example)) =
     [''11'', ''10'', ''9'', ''8'', ''7'', ''6'', ''5'', ''4'', ''3'', ''2'']"
    by (simp add: full_store_example_def savedQuote_def)
  with len v d show ?thesis by simp
qed

section \<open>What the validator reports\<close>

lemma newErrors_goldPrice:
  "err_goldPrice (newErrors st) =
     (if st_goldPrice st = [] \<or> fle (parseFloat (st_goldPrice st)) (Fin 0)
      then Some ''Invalid price'' else None)"
  by (simp add: newErrors_def noErrors_def Let_def)

lemma newErrors_goldWeight:
  "err_goldWeight (newErrors st) =
     (if st_goldWeight st = [] \<or> fle (parseFloat (st_goldWeight st)) (Fin 0)
      then Some ''Invalid weight'' else None)"
  by (simp add: newErrors_def noErrors_def Let_def)

lemma newErrors_minPercent:
  "err_minPercent (newErrors st) =
     (if st_minPercent st = [] \<or> flt (parseInt (st_minPercent st)) (Fin 0)
      then Some ''Invalid %'' else None)"
  by (simp add: newErrors_def noErrors_def Let_def)

lemma newErrors_maxPercent:
  "err_maxPercent (newErrors st) =
     (if fgt (parseInt (st_minPercent st)) (parseInt (st_maxPercent st))
      then Some ''Max must be >= min''
      else if st_maxPercent st = [] \<or> flt (parseInt (st_maxPercent st)) (Fin 0)
      then Some ''Invalid %'' else None)"
  by (simp add: newErrors_def noErrors_def Let_def)

lemma comparisons_with_NaN:
  "\<not> fle NaN x" "\<not> flt NaN x" "\<not> fgt NaN x" "\<not> fgt x NaN"
  by (cases x; simp add: fle_def flt_def fgt_def)+

text \<open>
  C2 says that the validator reports an error on a field exactly when its text does not
  parse to a number greater than 0 (price, weight) or to an integer that is at least 0
  (the two bounds), so also for the text \<^verbatim>\<open>abc\<close>. The code does not: \<^verbatim>\<open>abc\<close> parses to
  \<open>NaN\<close>, and with it in the price, the weight, the minimum or the maximum field the
  validator reports no error on that field, since every comparison with \<open>NaN\<close> is false;
  with it in all four fields the state is validated.
\<close>

theorem validate_accepts_non_numeric:
  "parseFloat ''abc'' = NaN \<and> parseInt ''abc'' = NaN \<and>
   err_goldPrice (newErrors (gold_example\<lparr>st_goldPrice := ''abc''\<rparr>)) = None \<and>
   err_goldWeight (newErrors (gold_example\<lparr>st_goldWeight := ''abc''\<rparr>)) = None \<and>
   err_minPercent (newErrors (gold_example\<lparr>st_minPercent := ''abc''\<rparr>)) = None \<and>
   err_maxPercent (newErrors (gold_example\<lparr>st_maxPercent := ''abc''\<rparr>)) = None \<and>
   newErrors (gold_example\<lparr>st_goldPrice := ''abc'', st_goldWeight := ''abc'',
     st_minPercent := ''abc'', st_maxPercent := ''abc''\<rparr>) = noErrors"
proof -
  have p: "parseFloat ''abc'' = NaN" "parseInt ''abc'' = NaN"
    by (simp_all add: parse_defs)
  show ?thesis
    by (simp add: p newErrors_goldPrice newErrors_goldWeight newErrors_minPercent
        newErrors_maxPercent comparisons_with_NaN)
       (simp add: newErrors_def Let_def p comparisons_with_NaN)
qed

section \<open>Replaying a saved calculation\<close>

lemma purityDecimal_replay_999: "replayPurityDecimal SilverFixed999 P999 = Fin (8998192055486251 / 9007199254740992)"
  by (simp add: literal_def, rule round64_eqI[where e = "-1" and n = "8998192055486251" and u = "1 / 2 ^ 53"], simp_all)

lemma silver_weight_times_999: "fmul (Fin 50) (Fin (8998192055486251 / 9007199254740992)) = Fin (3514918771674317 / 70368744177664)"
  by (simp add: fmul_def, rule round64_eqI[where e = "5" and n = "7029837543348634" and u = "1 / 2 ^ 47"], simp_all)

lemma silver_replay_purityValue: "fmul (Fin (3514918771674317 / 70368744177664)) (Fin 85) = Fin (16983 / 4)"
  by (simp add: fmul_def, rule round64_eqI[where e = "12" and n = "4668251493629952" and u = "1 / 2 ^ 40"], simp_all)

lemma silver_weight_times_8: "fmul (Fin 50) (Fin (5764607523034235 / 72057594037927936)) = Fin 4"
  by (simp add: fmul_def, rule round64_eqI[where e = "2" and n = "4503599627370496" and u = "1 / 2 ^ 50"], simp_all)

lemma silver_replay_total: "fadd (Fin (16983 / 4)) (Fin 340) = Fin (18343 / 4)"
  by (simp add: fadd_def, rule round64_eqI[where e = "12" and n = "5042085447073792" and u = "1 / 2 ^ 40"], simp_all)

lemma silver_weight_times_1: "fmul (Fin 50) (Fin 1) = Fin 50"
  by (simp add: fmul_def, rule round64_eqI[where e = "5" and n = "7036874417766400" and u = "1 / 2 ^ 47"], simp_all)

lemma silver_sweep_purityValue: "fmul (Fin 50) (Fin 85) = Fin 4250"
  by (simp add: fmul_def, rule round64_eqI[where e = "12" and n = "4672924418048000" and u = "1 / 2 ^ 40"], simp_all)

lemma silver_wastageValue_8: "fmul (Fin 4) (Fin 85) = Fin 340"
  by (simp add: fmul_def, rule round64_eqI[where e = "8" and n = "5981343255101440" and u = "1 / 2 ^ 44"], simp_all)

lemma silver_sweep_total: "fadd (Fin 4250) (Fin 340) = Fin 4590"
  by (simp add: fadd_def, rule round64_eqI[where e = "12" and n = "5046758371491840" and u = "1 / 2 ^ 40"], simp_all)


lemma sweepPurityDecimal_fixed999: "sweepPurityDecimal SilverFixed999 p = Fin 1"
  by (simp add: literal_def round64_1)

lemma replay_results:
  assumes "replay c q st = Inr st'"
  shows "\<exists>st''. calculateAndSelect c (selectedPercent q) (loadCalculation c q st) = Inr st'' \<and>
    results st' = results st'' \<and> selectedResult st' = selectedResult st''"
  using assms by (auto simp: replay_def split: sum.splits)

lemma loadCalculation_inputs:
  "st_goldPrice (loadCalculation c q st) = goldPrice q"
  "st_goldWeight (loadCalculation c q st) = goldWeight q"
  "st_minPercent (loadCalculation c q st) = minPercent q"
  "st_maxPercent (loadCalculation c q st) = maxPercent q"
  "c \<noteq> SilverFixed999 \<Longrightarrow> currentPurity c (loadCalculation c q st) = purity q"
  "currentPurity SilverFixed999 (loadCalculation SilverFixed999 q st) = P999"
  by (cases c; simp add: loadCalculation_def Let_def)+

lemma purityDecimal_same:
  "c \<noteq> SilverFixed999 \<Longrightarrow> sweepPurityDecimal c p = replayPurityDecimal c p"
  by (cases c) simp_all

text \<open>
  In the gold calculator and in the silver calculator with two purities, the total that
  \<^verbatim>\<open>calculateTotalFromParams\<close> gives for a saved calculation is the \<open>total\<close> of every
  result of the replayed run at the same percent.
\<close>

lemma replay_total_agrees:
  assumes "c \<noteq> SilverFixed999"
    and "replay c q st = Inr st'"
    and "r \<in> set (results st')"
    and "percent r = (case selectedPercent q of Some p \<Rightarrow> p | None \<Rightarrow> parseInt (minPercent q))"
  shows "total r = calculateTotalFromParams c q"
proof -
  from replay_results[OF assms(2)] obtain st'' where
    run: "calculateAndSelect c (selectedPercent q) (loadCalculation c q st) = Inr st''"
    and rs: "results st' = results st''" by blast
  from assms(3) rs have "r \<in> set (results st'')" by simp
  from calculateAndSelect_result_form[OF run this]
  have "r = resultFor (parseFloat (goldWeight q)) (replayPurityDecimal c (purity q))
      (parseFloat (goldPrice q)) (percent r)"
    by (simp add: loadCalculation_inputs assms(1) purityDecimal_same)
  then have "total r = total (resultFor (parseFloat (goldWeight q)) (replayPurityDecimal c (purity q))
      (parseFloat (goldPrice q)) (percent r))" by simp
  also have "\<dots> = calculateTotalFromParams c q"
    by (simp add: resultFor_def calculateTotalFromParams_def Let_def assms(4))
  finally show ?thesis .
qed

lemma fixed999_quote_valid: "newErrors (loadCalculation SilverFixed999 fixed999_quote silver_initial) = noErrors"
  by (simp add: newErrors_def loadCalculation_inputs fixed999_quote_def parse_defs round64_numeral
      fle_def flt_def fgt_def)

lemma fixed999_quote_replay:
  "replay SilverFixed999 fixed999_quote silver_initial =
     Inr ((loadCalculation SilverFixed999 fixed999_quote silver_initial)
       \<lparr>errors := noErrors,
        results := map (\<lambda>i. resultFor (Fin 50) (Fin 1) (Fin 85) (Fin (of_int i))) [8..15],
        selectedResult := Some (resultFor (Fin 50) (Fin 1) (Fin 85) (Fin 8)),
        loadRequest := None\<rparr>)"
proof -
  let ?st = "loadCalculation SilverFixed999 fixed999_quote silver_initial"
  have ps: "parseFloat (st_goldPrice ?st) = Fin 85" "parseFloat (st_goldWeight ?st) = Fin 50"
    "parseInt (st_minPercent ?st) = Fin (of_int 8)" "parseInt (st_maxPercent ?st) = Fin (of_int 15)"
    by (simp_all add: loadCalculation_inputs fixed999_quote_def parse_defs round64_numeral)
  have s: "sweep (parseFloat (st_goldWeight ?st)) (sweepPurityDecimal SilverFixed999 (currentPurity SilverFixed999 ?st))
       (parseFloat (st_goldPrice ?st)) (parseInt (st_minPercent ?st)) (parseInt (st_maxPercent ?st)) []
       = Inr (map (\<lambda>i. resultFor (Fin 50) (Fin 1) (Fin 85) (Fin (of_int i))) [8..15])"
    unfolding ps sweepPurityDecimal_fixed999
    using sweep_upto[where a = 8 and b = 15 and acc = "[]" and w = "Fin 50" and pd = "Fin 1"
        and p = "Fin 85"]
    by (simp add: maxArrayLength_def)
  have sel: "selectedPercent fixed999_quote = Some (Fin 8)" by (simp add: fixed999_quote_def)
  show ?thesis
    unfolding replay_def calculateAndSelect_validated[OF fixed999_quote_valid s] sel
    by (simp add: select_def percent_resultFor strictEq_def)
qed

text \<open>
  C1 says that in every component the total of \<^verbatim>\<open>calculateTotalFromParams\<close> for a saved
  calculation is the \<open>total\<close> of the result of the replayed run at the same percent. In
  the silver calculator with the fixed purity the code does not do that: replaying the
  calculation saved with price 85, weight 50, the range 8 to 15 and percent 8 selects the
  result at percent 8, whose \<open>total\<close> is 4590, while \<^verbatim>\<open>calculateTotalFromParams\<close> gives
  4585.75 for the same calculation: the loop takes the purity as 1.0 and the replay as 0.999.
\<close>

theorem replay_diverges_fixed999:
  "\<not> isl (replay SilverFixed999 fixed999_quote silver_initial) \<and>
   selectedPercent fixed999_quote = Some (Fin 8) \<and>
   map_option percent (selectedResult (projr (replay SilverFixed999 fixed999_quote silver_initial)))
     = Some (Fin 8) \<and>
   map_option total (selectedResult (projr (replay SilverFixed999 fixed999_quote silver_initial)))
     = Some (Fin 4590) \<and>
   calculateTotalFromParams SilverFixed999 fixed999_quote = Fin (18343 / 4)"
proof -
  have t: "total (resultFor (Fin 50) (Fin 1) (Fin 85) (Fin 8)) = Fin 4590"
    by (simp add: resultFor_def Let_def percent_8_decimal silver_weight_times_1
        silver_sweep_purityValue silver_weight_times_8 silver_wastageValue_8 silver_sweep_total)
  have r: "calculateTotalFromParams SilverFixed999 fixed999_quote = Fin (18343 / 4)"
    by (simp add: calculateTotalFromParams_def Let_def fixed999_quote_def parse_defs round64_numeral
        purityDecimal_replay_999 silver_weight_times_999 silver_replay_purityValue
        percent_8_decimal silver_weight_times_8 silver_wastageValue_8 silver_replay_total
        del: replayPurityDecimal.simps)
  show ?thesis
    by (simp add: fixed999_quote_replay percent_resultFor t r) (simp add: fixed999_quote_def)
qed

section \<open>Monotonicity of the arithmetic\<close>

lemma nonneg_cases:
  assumes "fle (Fin 0) x"
  obtains (Fin) u where "x = Fin u" "0 \<le> u" | (PInf) "x = PInf"
  using assms by (cases x) (auto simp: fle_def)

lemma fle_PInf: "fle (Fin 0) x \<Longrightarrow> fle x PInf"
  by (cases x) (auto simp: fle_def)

lemma fle_refl: "fle (Fin 0) x \<Longrightarrow> fle x x"
  by (cases x) (auto simp: fle_def)

lemma fle_trans: "fle x y \<Longrightarrow> fle y z \<Longrightarrow> fle x z"
  by (cases x; cases y; cases z) (auto simp: fle_def)

lemma round64_bounded:
  assumes "0 \<le> x" "x \<le> 2 ^ 53"
  shows "\<exists>y. round64 x = Fin y \<and> 0 \<le> y"
proof -
  have "round64 (of_int (2 ^ 53)) = Fin (of_int (2 ^ 53))" by (rule round64_of_int) simp
  then have top: "round64 (2 ^ 53) = Fin (2 ^ 53)" by simp
  have "fle (round64 x) (round64 (2 ^ 53))" using assms by (rule round64_mono)
  with top have "fle (round64 x) (Fin (2 ^ 53))" by simp
  moreover have "fle (Fin 0) (round64 x)" using assms(1) by (rule round64_nonneg)
  ultimately show ?thesis by (cases "round64 x") (auto simp: fle_def)
qed

lemma fmul_commute: "fmul x y = fmul y x"
  by (cases x; cases y) (auto simp: fmul_def mult.commute)

lemma fmul_nonneg:
  assumes "0 < a" "fle (Fin 0) x"
  shows "fle (Fin 0) (fmul (Fin a) x)"
  using assms(2)
proof (cases rule: nonneg_cases)
  case (Fin u)
  then show ?thesis using assms(1) by (simp add: fmul_def round64_nonneg)
next
  case PInf
  then show ?thesis using assms(1) by (simp add: fmul_def fle_def)
qed

lemma fmul_mono:
  assumes "0 < a" "fle (Fin 0) x" "fle x y"
  shows "fle (fmul (Fin a) x) (fmul (Fin a) y)"
proof -
  have y0: "fle (Fin 0) y" using assms(2,3) by (rule fle_trans)
  from assms(2) show ?thesis
  proof (cases rule: nonneg_cases)
    case (Fin u)
    note x = this
    from y0 show ?thesis
    proof (cases rule: nonneg_cases)
      case (Fin v)
      with x assms(3) have "u \<le> v" by (simp add: fle_def)
      then have "a * u \<le> a * v" using assms(1) by simp
      moreover have "0 \<le> a * u" using assms(1) x by simp
      ultimately have "fle (round64 (a * u)) (round64 (a * v))" by (intro round64_mono)
      then show ?thesis using x Fin by (simp add: fmul_def)
    next
      case PInf
      have "fle (fmul (Fin a) x) PInf"
        using fmul_nonneg[OF assms(1,2)] by (rule fle_PInf)
      then show ?thesis using PInf assms(1) by (simp add: fmul_def)
    qed
  next
    case PInf
    with assms(3) have "y = PInf" by (cases y) (auto simp: fle_def)
    with PInf assms(1) show ?thesis by (simp add: fmul_def fle_def)
  qed
qed

lemma fadd_nonneg:
  assumes "fle (Fin 0) c" "fle (Fin 0) x"
  shows "fle (Fin 0) (fadd c x)"
  using assms(1)
proof (cases rule: nonneg_cases)
  case c: (Fin u)
  from assms(2) show ?thesis
  proof (cases rule: nonneg_cases)
    case (Fin v)
    then show ?thesis using c by (simp add: fadd_def round64_nonneg)
  next
    case PInf
    then show ?thesis using c by (simp add: fadd_def fle_def)
  qed
next
  case PInf
  then show ?thesis using assms(2) by (cases x) (auto simp: fadd_def fle_def)
qed

lemma fadd_mono:
  assumes "fle (Fin 0) c" "fle (Fin 0) x" "fle x y"
  shows "fle (fadd c x) (fadd c y)"
proof -
  have y0: "fle (Fin 0) y" using assms(2,3) by (rule fle_trans)
  from assms(1) show ?thesis
  proof (cases rule: nonneg_cases)
    case c: (Fin w)
    from assms(2) show ?thesis
    proof (cases rule: nonneg_cases)
      case x: (Fin u)
      from y0 show ?thesis
      proof (cases rule: nonneg_cases)
        case (Fin v)
        with x assms(3) have "w + u \<le> w + v" by (simp add: fle_def)
        moreover have "0 \<le> w + u" using c x by simp
        ultimately have "fle (round64 (w + u)) (round64 (w + v))" by (intro round64_mono)
        then show ?thesis using c x Fin by (simp add: fadd_def)
      next
        case PInf
        have "fle (fadd c x) PInf" using fadd_nonneg[OF assms(1,2)] by (rule fle_PInf)
        then show ?thesis using PInf c by (simp add: fadd_def)
      qed
    next
      case PInf
      with assms(3) have "y = PInf" by (cases y) (auto simp: fle_def)
      with PInf c show ?thesis by (simp add: fadd_def fle_def)
    qed
  next
    case PInf
    have "fadd PInf x = PInf" using assms(2) by (cases x) (auto simp: fadd_def fle_def)
    moreover have "fadd PInf y = PInf" using y0 by (cases y) (auto simp: fadd_def fle_def)
    ultimately show ?thesis using PInf by (simp add: fle_def)
  qed
qed

lemma fsub_nonneg:
  assumes "fle (Fin t) y"
  shows "fge (fsub y (Fin t)) (Fin 0)"
proof (cases y)
  case (Fin v)
  with assms have "0 \<le> v - t" by (simp add: fle_def)
  then have "fle (Fin 0) (round64 (v - t))" by (rule round64_nonneg)
  then show ?thesis using Fin by (simp add: fge_def fsub_def fadd_def fneg_def)
next
  case NaN
  with assms show ?thesis by (simp add: fle_def)
next
  case PInf
  then show ?thesis by (simp add: fge_def fle_def fsub_def fadd_def fneg_def)
next
  case NInf
  with assms show ?thesis by (simp add: fle_def)
qed

lemma sweepPurityDecimal_nonneg: "\<exists>y. sweepPurityDecimal c pur = Fin y \<and> 0 \<le> y"
  by (cases c) (auto simp: literal_def intro!: round64_bounded)

lemma percent_decimal:
  assumes "0 \<le> i" "i \<le> j" "j < 2 ^ 53"
  shows "fle (Fin 0) (fdiv (Fin (of_int i)) (Fin 100))"
    and "fle (fdiv (Fin (of_int i)) (Fin 100)) (fdiv (Fin (of_int j)) (Fin 100))"
proof -
  have 1: "(0::rat) \<le> of_int i / 100" using assms(1) by simp
  have 2: "(of_int i :: rat) / 100 \<le> of_int j / 100" using assms(2) by (simp add: divide_right_mono)
  show "fle (Fin 0) (fdiv (Fin (of_int i)) (Fin 100))"
    using round64_nonneg[OF 1] by (simp add: fdiv_def)
  show "fle (fdiv (Fin (of_int i)) (Fin 100)) (fdiv (Fin (of_int j)) (Fin 100))"
    using round64_mono[OF 1 2] by (simp add: fdiv_def)
qed

lemma total_resultFor:
  "total (resultFor w pd p i) = fadd (fmul (fmul w pd) p) (fmul (fmul w (fdiv i (Fin 100))) p)"
  by (simp add: resultFor_def Let_def)

lemma total_mono:
  assumes "0 < w" "0 < p" "0 \<le> i" "i \<le> j" "j < 2 ^ 53"
  shows "fle (total (resultFor (Fin w) (sweepPurityDecimal c pur) (Fin p) (Fin (of_int i))))
             (total (resultFor (Fin w) (sweepPurityDecimal c pur) (Fin p) (Fin (of_int j))))"
proof -
  obtain y where pd: "sweepPurityDecimal c pur = Fin y" and y: "0 \<le> y"
    using sweepPurityDecimal_nonneg by blast
  have pd0: "fle (Fin 0) (sweepPurityDecimal c pur)" using pd y by (simp add: fle_def)
  have pv0: "fle (Fin 0) (fmul (fmul (Fin w) (sweepPurityDecimal c pur)) (Fin p))"
    using fmul_nonneg[OF assms(2) fmul_nonneg[OF assms(1) pd0]] by (simp add: fmul_commute)
  note d = percent_decimal[OF assms(3-5)]
  have m0: "fle (Fin 0) (fmul (Fin w) (fdiv (Fin (of_int i)) (Fin 100)))"
    using assms(1) d(1) by (rule fmul_nonneg)
  have m: "fle (fmul (Fin w) (fdiv (Fin (of_int i)) (Fin 100)))
               (fmul (Fin w) (fdiv (Fin (of_int j)) (Fin 100)))"
    using assms(1) d by (rule fmul_mono)
  have wv0: "fle (Fin 0) (fmul (fmul (Fin w) (fdiv (Fin (of_int i)) (Fin 100))) (Fin p))"
    using fmul_nonneg[OF assms(2) m0] by (simp add: fmul_commute)
  have wv: "fle (fmul (fmul (Fin w) (fdiv (Fin (of_int i)) (Fin 100))) (Fin p))
                (fmul (fmul (Fin w) (fdiv (Fin (of_int j)) (Fin 100))) (Fin p))"
    using fmul_mono[OF assms(2) m0 m] by (simp add: fmul_commute)
  show ?thesis
    unfolding total_resultFor using pv0 wv0 wv by (rule fadd_mono)
qed

section \<open>Totals at the ends of the binary64 range\<close>

lemma parseFloat_1e308:
  "parseFloat ''1e308'' = Fin 100000000000000001097906362944045541740492309677311846336810682903157585404911491537163328978494688899061249669721172515611590283743140088328307009198146046031271664502933027185697489699588559043338384466165001178426897626212945177628091195786707458122783970171784415105291802893207873272974885715430223118336"
  by (simp add: parse_defs, rule round64_eqI[where e = "1023" and n = "5010420900022432" and u = "2 ^ 971"], simp_all)

lemma overflow_purityValue:
  "fmul (Fin (5179139571476071 / 562949953421312)) (Fin 100000000000000001097906362944045541740492309677311846336810682903157585404911491537163328978494688899061249669721172515611590283743140088328307009198146046031271664502933027185697489699588559043338384466165001178426897626212945177628091195786707458122783970171784415105291802893207873272974885715430223118336) = PInf"
  by (simp add: fmul_def, rule round64_overflowI, simp)

lemma parseFloat_5e324:
  "parseFloat ''5e-324'' = Fin MIN_VALUE"
  by (simp add: parse_defs MIN_VALUE_def, rule round64_eqI[where e = "-1074" and n = "1" and u = "1 / 2 ^ 1074"], simp_all)

lemma one_times_purity:
  "fmul (Fin 1) (Fin (8286623314361713 / 9007199254740992)) = Fin (8286623314361713 / 9007199254740992)"
  by (simp add: fmul_def, rule round64_eqI[where e = "-1" and n = "8286623314361713" and u = "1 / 2 ^ 53"], simp_all)

lemma underflow_purityValue:
  "fmul (Fin (8286623314361713 / 9007199254740992)) (Fin MIN_VALUE) = Fin MIN_VALUE"
  by (simp add: fmul_def MIN_VALUE_def, rule round64_eqI[where e = "-1075" and n = "1" and u = "1 / 2 ^ 1074"], simp_all)

lemma percent_9_decimal:
  "fdiv (Fin 9) (Fin 100) = Fin (3242591731706757 / 36028797018963968)"
  by (simp add: fdiv_def, rule round64_eqI[where e = "-4" and n = "6485183463413514" and u = "1 / 2 ^ 56"], simp_all)

lemma one_times_8:
  "fmul (Fin 1) (Fin (5764607523034235 / 72057594037927936)) = Fin (5764607523034235 / 72057594037927936)"
  by (simp add: fmul_def, rule round64_eqI[where e = "-4" and n = "5764607523034235" and u = "1 / 2 ^ 56"], simp_all)

lemma one_times_9:
  "fmul (Fin 1) (Fin (3242591731706757 / 36028797018963968)) = Fin (3242591731706757 / 36028797018963968)"
  by (simp add: fmul_def, rule round64_eqI[where e = "-4" and n = "6485183463413514" and u = "1 / 2 ^ 56"], simp_all)

lemma underflow_wastageValue_8:
  "fmul (Fin (5764607523034235 / 72057594037927936)) (Fin MIN_VALUE) = Fin 0"
  by (simp add: fmul_def MIN_VALUE_def, rule round64_eqI[where e = "-1078" and n = "0" and u = "1 / 2 ^ 1074"], simp_all)

lemma underflow_wastageValue_9:
  "fmul (Fin (3242591731706757 / 36028797018963968)) (Fin MIN_VALUE) = Fin 0"
  by (simp add: fmul_def MIN_VALUE_def, rule round64_eqI[where e = "-1078" and n = "0" and u = "1 / 2 ^ 1074"], simp_all)

lemma underflow_total:
  "fadd (Fin MIN_VALUE) (Fin 0) = Fin MIN_VALUE"
  by (simp add: fadd_def MIN_VALUE_def, rule round64_eqI[where e = "-1074" and n = "1" and u = "1 / 2 ^ 1074"], simp_all)

lemma MIN_VALUE_pos: "0 < MIN_VALUE"
  by (simp add: MIN_VALUE_def)

lemma fadd_PInf: "fle (Fin 0) x \<Longrightarrow> fadd PInf x = PInf"
  by (cases x) (auto simp: fadd_def fle_def)

lemma profit_Some:
  assumes "profit rs r = Some d"
  shows "d = fsub (total r) (total (hd rs))"
  using assms by (auto simp: profit_def split: list.splits)

lemma overflow_example_valid: "newErrors overflow_example = noErrors"
  by (simp add: newErrors_def overflow_example_def gold_example_def parseFloat_1e308)
     (simp add: parse_defs round64_numeral fle_def flt_def fgt_def)

lemma overflow_example_run:
  "calculateAndSelect Gold None overflow_example =
     Inr (overflow_example\<lparr>errors := noErrors,
       results := map (\<lambda>i. resultFor (Fin 10) (sweepPurityDecimal Gold P916)
          (parseFloat ''1e308'') (Fin (of_int i))) [8..9],
       selectedResult := select None (map (\<lambda>i. resultFor (Fin 10) (sweepPurityDecimal Gold P916)
          (parseFloat ''1e308'') (Fin (of_int i))) [8..9])\<rparr>)"
proof -
  have ps: "parseFloat (st_goldWeight overflow_example) = Fin 10"
    "parseInt (st_minPercent overflow_example) = Fin (of_int 8)"
    "parseInt (st_maxPercent overflow_example) = Fin (of_int 9)"
    by (simp_all add: overflow_example_def gold_example_def parse_defs round64_numeral)
  have pr: "st_goldPrice overflow_example = ''1e308''" "currentPurity Gold overflow_example = P916"
    by (simp_all add: overflow_example_def gold_example_def)
  have s: "sweep w pd p (Fin (of_int 8)) (Fin (of_int 9)) [] =
      Inr (map (\<lambda>i. resultFor w pd p (Fin (of_int i))) [8..9])" for w pd p
    using sweep_upto[where a = 8 and b = 9 and acc = "[]" and w = w and pd = pd and p = p]
    by (simp add: maxArrayLength_def)
  show ?thesis
    by (rule calculateAndSelect_validated[OF overflow_example_valid]) (simp only: ps pr s)
qed

lemma overflow_total:
  assumes "0 \<le> i" "i < 2 ^ 53"
  shows "total (resultFor (Fin 10) (sweepPurityDecimal Gold P916) (parseFloat ''1e308'') (Fin (of_int i))) = PInf"
proof -
  have d: "fle (Fin 0) (fdiv (Fin (of_int i)) (Fin 100))"
    using assms by (intro percent_decimal(1)[of i i]) simp_all
  have m: "fle (Fin 0) (fmul (Fin 10) (fdiv (Fin (of_int i)) (Fin 100)))"
    by (rule fmul_nonneg[OF _ d]) simp
  have "fle (Fin 0) (fmul (parseFloat ''1e308'') (fmul (Fin 10) (fdiv (Fin (of_int i)) (Fin 100))))"
    unfolding parseFloat_1e308 by (rule fmul_nonneg[OF _ m]) simp
  then have wv: "fle (Fin 0) (fmul (fmul (Fin 10) (fdiv (Fin (of_int i)) (Fin 100))) (parseFloat ''1e308''))"
    by (simp only: fmul_commute)
  have pv: "fmul (fmul (Fin 10) (sweepPurityDecimal Gold P916)) (parseFloat ''1e308'') = PInf"
    by (simp only: purityDecimal_gold_916 gold_weight_times_purity parseFloat_1e308 overflow_purityValue)
  show ?thesis
    by (simp only: total_resultFor pv fadd_PInf[OF wv])
qed

lemma underflow_example_parses:
  "parseFloat (st_goldPrice underflow_example) = Fin MIN_VALUE"
  "parseFloat (st_goldWeight underflow_example) = Fin 1"
  "parseInt (st_minPercent underflow_example) = Fin (of_int 8)"
  "parseInt (st_maxPercent underflow_example) = Fin (of_int 9)"
proof -
  have "st_goldPrice underflow_example = ''5e-324''"
    by (simp add: underflow_example_def gold_example_def)
  then show "parseFloat (st_goldPrice underflow_example) = Fin MIN_VALUE"
    by (simp only: parseFloat_5e324)
  show "parseFloat (st_goldWeight underflow_example) = Fin 1"
    "parseInt (st_minPercent underflow_example) = Fin (of_int 8)"
    "parseInt (st_maxPercent underflow_example) = Fin (of_int 9)"
    by (simp_all add: underflow_example_def gold_example_def parse_defs round64_numeral round64_1)
qed

lemma underflow_example_valid: "newErrors underflow_example = noErrors"
proof -
  have ne: "st_goldPrice underflow_example \<noteq> []" "st_goldWeight underflow_example \<noteq> []"
    "st_minPercent underflow_example \<noteq> []" "st_maxPercent underflow_example \<noteq> []"
    by (simp_all add: underflow_example_def gold_example_def)
  show ?thesis
    using MIN_VALUE_pos
    by (simp add: newErrors_def Let_def ne underflow_example_parses fle_def flt_def fgt_def not_le)
qed

lemma underflow_example_run:
  "calculateAndSelect Gold None underflow_example =
     Inr (underflow_example\<lparr>errors := noErrors,
       results := map (\<lambda>i. resultFor (Fin 1) (sweepPurityDecimal Gold P916)
          (Fin MIN_VALUE) (Fin (of_int i))) [8..9],
       selectedResult := select None (map (\<lambda>i. resultFor (Fin 1) (sweepPurityDecimal Gold P916)
          (Fin MIN_VALUE) (Fin (of_int i))) [8..9])\<rparr>)"
proof -
  have pu: "currentPurity Gold underflow_example = P916"
    by (simp add: underflow_example_def gold_example_def)
  have s: "sweep w pd p (Fin (of_int 8)) (Fin (of_int 9)) [] =
      Inr (map (\<lambda>i. resultFor w pd p (Fin (of_int i))) [8..9])" for w pd p
    using sweep_upto[where a = 8 and b = 9 and acc = "[]" and w = w and pd = pd and p = p]
    by (simp add: maxArrayLength_def)
  show ?thesis
    by (rule calculateAndSelect_validated[OF underflow_example_valid])
       (simp only: underflow_example_parses pu s)
qed

lemma underflow_totals:
  "total (resultFor (Fin 1) (sweepPurityDecimal Gold P916) (Fin MIN_VALUE) (Fin 8)) =
     Fin MIN_VALUE"
  "total (resultFor (Fin 1) (sweepPurityDecimal Gold P916) (Fin MIN_VALUE) (Fin 9)) =
     Fin MIN_VALUE"
  by (simp_all only: total_resultFor purityDecimal_gold_916 one_times_purity
      underflow_purityValue percent_8_decimal percent_9_decimal one_times_8 one_times_9
      underflow_wastageValue_8 underflow_wastageValue_9 underflow_total)

text \<open>
  C10, as stated, fails. With the price \<^verbatim>\<open>1e308\<close> and the weight 10 (validated, both
  positive and finite) \<open>purityValue\<close> overflows, both totals are \<open>+\<infinity>\<close>, so the total does
  not increase, and the profit margin of the second result is \<open>NaN\<close>, which is not
  \<open>\<ge> 0\<close>. With the price \<^verbatim>\<open>5e-324\<close> and the weight 1 both totals are finite and equal,
  because \<open>wastageValue\<close> underflows to 0.
\<close>

theorem totals_not_strictly_increasing:
  "newErrors overflow_example = noErrors \<and>
   flt (Fin 0) (parseFloat (st_goldPrice overflow_example)) \<and>
   isFinite (parseFloat (st_goldPrice overflow_example)) \<and>
   parseFloat (st_goldWeight overflow_example) = Fin 10 \<and>
   \<not> isl (calculateAndSelect Gold None overflow_example) \<and>
   map total (results (projr (calculateAndSelect Gold None overflow_example))) = [PInf, PInf] \<and>
   \<not> flt PInf PInf \<and>
   profit (results (projr (calculateAndSelect Gold None overflow_example)))
     (last (results (projr (calculateAndSelect Gold None overflow_example)))) = Some NaN \<and>
   \<not> fge NaN (Fin 0) \<and>
   newErrors underflow_example = noErrors \<and>
   parseFloat (st_goldPrice underflow_example) = Fin MIN_VALUE \<and>
   parseFloat (st_goldWeight underflow_example) = Fin 1 \<and>
   \<not> isl (calculateAndSelect Gold None underflow_example) \<and>
   map total (results (projr (calculateAndSelect Gold None underflow_example))) =
     [Fin MIN_VALUE, Fin MIN_VALUE] \<and>
   \<not> flt (Fin MIN_VALUE) (Fin MIN_VALUE)"
proof -
  have pr: "st_goldPrice overflow_example = ''1e308''"
    "parseFloat (st_goldWeight overflow_example) = Fin 10"
    by (simp_all add: overflow_example_def gold_example_def parse_defs round64_numeral)
  have pos: "flt (Fin 0) (parseFloat (st_goldPrice overflow_example))"
    "isFinite (parseFloat (st_goldPrice overflow_example))"
    by (simp_all add: pr parseFloat_1e308 flt_def isFinite_def)
  have tot:
    "total (resultFor (Fin 10) (sweepPurityDecimal Gold P916) (parseFloat ''1e308'') (Fin 8)) = PInf"
    "total (resultFor (Fin 10) (sweepPurityDecimal Gold P916) (parseFloat ''1e308'') (Fin 9)) = PInf"
    using overflow_total[of 8] overflow_total[of 9] by (simp_all del: sweepPurityDecimal.simps)
  have t: "map total (results (projr (calculateAndSelect Gold None overflow_example))) = [PInf, PInf]"
    by (simp add: overflow_example_run tot del: sweepPurityDecimal.simps)
  have rs: "profit (results (projr (calculateAndSelect Gold None overflow_example)))
     (last (results (projr (calculateAndSelect Gold None overflow_example)))) = Some NaN"
    by (simp add: overflow_example_run profit_def tot fsub_def fadd_def fneg_def
        del: sweepPurityDecimal.simps)
  have ret: "\<not> isl (calculateAndSelect Gold None overflow_example)"
    by (simp add: overflow_example_run)
  have upr: "parseFloat (st_goldPrice underflow_example) = Fin MIN_VALUE"
    "parseFloat (st_goldWeight underflow_example) = Fin 1"
    by (simp_all add: underflow_example_parses)
  have ut: "map total (results (projr (calculateAndSelect Gold None underflow_example))) =
     [Fin MIN_VALUE, Fin MIN_VALUE]"
    by (simp add: underflow_example_run underflow_totals del: sweepPurityDecimal.simps)
  have uret: "\<not> isl (calculateAndSelect Gold None underflow_example)"
    by (simp add: underflow_example_run)
  from overflow_example_valid pos pr(2) ret t rs underflow_example_valid upr uret ut
  show ?thesis
    by (simp add: flt_def fge_def fle_def)
qed


lemma sweep_rows_validated:
  assumes "newErrors st = noErrors"
    and "parseInt (st_minPercent st) = Fin (of_int a)"
    and "parseInt (st_maxPercent st) = Fin (of_int b)"
    and "b < 2 ^ 53"
    and "b - a < 4294967295"
  shows "calculateAndSelect c sel st =
      Inr (st\<lparr>errors := noErrors,
        results := map (\<lambda>i. resultFor (parseFloat (st_goldWeight st))
           (sweepPurityDecimal c (currentPurity c st)) (parseFloat (st_goldPrice st)) (Fin (of_int i))) [a..b],
        selectedResult := select sel (map (\<lambda>i. resultFor (parseFloat (st_goldWeight st))
           (sweepPurityDecimal c (currentPurity c st)) (parseFloat (st_goldPrice st)) (Fin (of_int i))) [a..b])\<rparr>)"
    and "0 \<le> a" and "a \<le> b"
proof -
  from validated_conditions[OF assms(1)] assms(2,3)
  show a0: "0 \<le> a" and ab: "a \<le> b"
    by (auto simp: flt_def fgt_def)
  let ?w = "parseFloat (st_goldWeight st)"
  let ?pd = "sweepPurityDecimal c (currentPurity c st)"
  let ?p = "parseFloat (st_goldPrice st)"
  let ?rs = "map (\<lambda>i. resultFor ?w ?pd ?p (Fin (of_int i))) [a..b]"
  have "sweep ?w ?pd ?p (Fin (of_int a)) (Fin (of_int b)) [] = Inr ([] @ ?rs)"
    using a0 assms(4,5) by (intro sweep_upto) (simp_all add: maxArrayLength_def)
  then show "calculateAndSelect c sel st =
      Inr (st\<lparr>errors := noErrors, results := ?rs, selectedResult := select sel ?rs\<rparr>)"
    using assms(1-3) by (intro calculateAndSelect_validated) simp_all
qed

text \<open>
  C10, amended: for every validated state whose price and weight parse to finite numbers
  greater than 0 and whose bounds parse to integers with the maximum below \<open>2 ^ 53\<close> and at
  most \<open>2 ^ 32 - 1\<close> integers between them, the
  run returns at least one result, the totals never decrease along the results (each is
  \<^verbatim>\<open><=\<close> every later one), the first total is \<^verbatim>\<open><=\<close> every total, and whenever the first
  total is finite the profit margin shown for any result of the run is \<^verbatim>\<open>>= 0\<close>.
\<close>

theorem totals_nondecreasing:
  assumes "newErrors st = noErrors"
    and "parseFloat (st_goldPrice st) = Fin p" and "0 < p"
    and "parseFloat (st_goldWeight st) = Fin w" and "0 < w"
    and "parseInt (st_minPercent st) = Fin (of_int a)"
    and "parseInt (st_maxPercent st) = Fin (of_int b)"
    and "b < 2 ^ 53"
    and "b - a < 4294967295"
  shows "\<exists>st'. calculateAndSelect c sel st = Inr st' \<and> results st' \<noteq> [] \<and>
    sorted_wrt (\<lambda>r r'. fle (total r) (total r')) (results st') \<and>
    (\<forall>r \<in> set (results st').
       fle (total (hd (results st'))) (total r) \<and>
       (\<forall>d. isFinite (total (hd (results st'))) \<and> profit (results st') r = Some d
          \<longrightarrow> fge d (Fin 0)))"
proof -
  let ?T = "\<lambda>i. resultFor (Fin w) (sweepPurityDecimal c (currentPurity c st)) (Fin p) (Fin (of_int i))"
  let ?rs = "map ?T [a..b]"
  note run = sweep_rows_validated(1)[OF assms(1,6,7,8,9), where c = c and sel = sel,
      unfolded assms(2,4)]
  have a0: "0 \<le> a" and ab: "a \<le> b"
    using sweep_rows_validated(2,3)[OF assms(1,6,7,8,9)] by simp_all
  have ne: "?rs \<noteq> []" using ab by simp
  have hd: "hd ?rs = ?T a" using ab by (simp add: upto_rec1)
  have mono: "fle (total (?T i)) (total (?T j))" if "a \<le> i" "i \<le> j" "j \<le> b" for i j
  proof -
    have "0 \<le> i" using a0 that(1) by simp
    moreover have "j < 2 ^ 53" using that(3) assms(8) by simp
    ultimately show ?thesis using assms(5,3) that(2) by (intro total_mono)
  qed
  have "sorted_wrt (\<lambda>i j. fle (total (?T i)) (total (?T j))) [a..b]"
    using sorted_wrt_upto[of a b]
    by (rule sorted_wrt_mono_rel[rotated]) (auto intro!: mono)
  then have srt: "sorted_wrt (\<lambda>r r'. fle (total r) (total r')) ?rs"
    by (simp add: sorted_wrt_map)
  have each: "fle (total (hd ?rs)) (total r) \<and>
       (\<forall>d. isFinite (total (hd ?rs)) \<and> profit ?rs r = Some d \<longrightarrow> fge d (Fin 0))"
    if "r \<in> set ?rs" for r
  proof -
    from that obtain j where j: "r = ?T j" "a \<le> j" "j \<le> b" by auto
    have le: "fle (total (hd ?rs)) (total r)"
      unfolding hd j(1) using j(2,3) by (intro mono) simp_all
    have "fge d (Fin 0)" if "isFinite (total (hd ?rs))" "profit ?rs r = Some d" for d
    proof -
      from that(1) obtain t where t: "total (hd ?rs) = Fin t"
        by (cases "total (hd ?rs)") (auto simp: isFinite_def)
      from profit_Some[OF that(2)] have "d = fsub (total r) (Fin t)" by (simp only: t)
      moreover have "fge (fsub (total r) (Fin t)) (Fin 0)"
        using le unfolding t by (rule fsub_nonneg)
      ultimately show ?thesis by simp
    qed
    with le show ?thesis by blast
  qed
  show ?thesis
    using run ne srt each by (intro exI[of _ "st\<lparr>errors := noErrors, results := ?rs, selectedResult := select sel ?rs\<rparr>"]) simp
qed


theorem totals_nondecreasing_witness:
  "newErrors gold_example = noErrors \<and>
   parseFloat (st_goldPrice gold_example) = Fin 7200 \<and> (0 :: rat) < 7200 \<and>
   parseFloat (st_goldWeight gold_example) = Fin 10 \<and> (0 :: rat) < 10 \<and>
   parseInt (st_minPercent gold_example) = Fin (of_int 8) \<and>
   parseInt (st_maxPercent gold_example) = Fin (of_int 14) \<and>
   (14 :: int) < 2 ^ 53 \<and> (14 :: int) - 8 < 4294967295 \<and>
   \<not> isl (calculateAndSelect Gold None gold_example) \<and>
   last (results (projr (calculateAndSelect Gold None gold_example)))
     \<in> set (results (projr (calculateAndSelect Gold None gold_example))) \<and>
   isFinite (total (hd (results (projr (calculateAndSelect Gold None gold_example))))) \<and>
   profit (results (projr (calculateAndSelect Gold None gold_example)))
     (last (results (projr (calculateAndSelect Gold None gold_example)))) \<noteq> None \<and>
   fle (total (hd (results (projr (calculateAndSelect Gold None gold_example)))))
       (total (last (results (projr (calculateAndSelect Gold None gold_example))))) \<and>
   fge (the (profit (results (projr (calculateAndSelect Gold None gold_example)))
          (last (results (projr (calculateAndSelect Gold None gold_example)))))) (Fin 0)"
proof -
  let ?rs = "results (projr (calculateAndSelect Gold None gold_example))"
  have ps: "parseFloat (st_goldPrice gold_example) = Fin 7200"
    "parseFloat (st_goldWeight gold_example) = Fin 10"
    "parseInt (st_minPercent gold_example) = Fin (of_int 8)"
    "parseInt (st_maxPercent gold_example) = Fin (of_int 14)"
    by (simp_all add: gold_example_def parse_defs round64_numeral)
  have pos: "(0 :: rat) < 7200" "(0 :: rat) < 10" "(14 :: int) < 2 ^ 53"
    "(14 :: int) - 8 < 4294967295" by simp_all
  from totals_nondecreasing[OF gold_example_valid ps(1) pos(1) ps(2) pos(2) ps(3,4) pos(3,4),
      of Gold None]
  obtain st' where run: "calculateAndSelect Gold None gold_example = Inr st'"
    and ne: "results st' \<noteq> []"
    and all: "\<forall>r \<in> set (results st').
       fle (total (hd (results st'))) (total r) \<and>
       (\<forall>d. isFinite (total (hd (results st'))) \<and> profit (results st') r = Some d
          \<longrightarrow> fge d (Fin 0))"
    by blast
  have st': "projr (calculateAndSelect Gold None gold_example) = st'" by (simp add: run)
  have ret: "\<not> isl (calculateAndSelect Gold None gold_example)" by (simp add: run)
  have mem: "last ?rs \<in> set ?rs" using ne by (simp add: st')
  have fin: "isFinite (total (hd ?rs))"
    by (simp add: gold_example_run gold_row_8[simplified] isFinite_def)
  have pr: "profit ?rs (last ?rs) \<noteq> None"
    by (simp add: gold_example_run profit_def)
  then obtain d where d: "profit ?rs (last ?rs) = Some d" by blast
  from all mem fin d have "fle (total (hd ?rs)) (total (last ?rs))" "fge d (Fin 0)"
    unfolding st' by blast+
  with gold_example_valid ps pos ret mem fin pr d show ?thesis by simp
qed

end
